theory Spec2Isabelle
  imports Complex_Main "HOL-Library.AList" "HOL-Library.Multiset"
begin

section \<open>The FEMS input plugin (plugins/inputs/fems/fems.go)\<close>

text \<open>
  The plugin keeps one websocket connection to a FEMS edge device, logs in, subscribes
  to the configured channels and forwards every data update to the accumulator. It is
  embedded as state-passing functions on a record of the plugin's fields and of the
  world around it: the dialer, the uuid generator, and the ordered list of everything the
  plugin has done to the logger, the accumulator, the socket and the clock.

  The embedding is sequential: it follows the goroutine that runs \<open>connect\<close>. A call of
  \<open>Stop\<close> from another goroutine is a state change between two steps; data races on
  \<open>conn\<close> and \<open>is_stopping\<close> are not modelled.
\<close>

subsection \<open>JSON texts and what encoding/json makes of them\<close>

text \<open>
  A number literal without fraction and exponent part is \<open>IntLit\<close>; any other number
  literal is \<open>FracLit\<close>, given by its value. The distinction matters to encoding/json:
  only the former is stored into a Go \<open>int\<close>.
\<close>

datatype jnum = IntLit int | FracLit rat

datatype json =
    JNull
  | JBool bool
  | JNumber jnum
  | JString string
  | JArray "json list"
  | JObject "(string \<times> json) list"

text \<open>
  A received websocket message: its bytes, and their JSON syntax tree (\<open>None\<close> when
  the bytes are not a valid JSON text, which is when \<open>json.Unmarshal\<close> reports a
  syntax error before it stores anything).
\<close>

datatype frame = Frame (raw: string) (tree: "json option")

datatype json_error = SyntaxError | UnmarshalTypeError

text \<open>
  A Go \<open>map[string]any\<close> filled by encoding/json: the entries with their keys distinct.
  The order of the list is the order of insertion and means nothing to the program: a
  map has no order, and the order in which a \<open>range\<close> loop visits it is chosen by the
  runtime (see \<open>range_order\<close> below). A value of type \<open>any\<close> is given by the JSON value
  it was decoded from
  (\<open>JNull\<close> is Go's \<open>nil\<close>). A nil map and an empty map are both \<open>[]\<close>: \<open>range\<close>,
  \<open>len\<close> and \<open>delete\<close> do not tell them apart.
\<close>

type_synonym fields = "(string \<times> json) list"

record ErrorMsg =
  Code :: int
  Message :: string

text \<open>
  Several structs of the source share field names (\<open>Id\<close>, \<open>Method\<close>, \<open>Params\<close>);
  here each carries a prefix naming its struct.
\<close>

record RpcResponse =
  resp_Id :: string
  resp_Error :: "ErrorMsg option"

record DataUpdateEventPayload =
  pay_Params :: fields

record DataUpdateEventParams =
  par_Method :: string
  Payload :: DataUpdateEventPayload

record DataUpdateEvent =
  ev_Method :: string
  EdgRpcParams :: DataUpdateEventParams

text \<open>
  \<open>RpcReq.Params\<close> has type \<open>any\<close>; the source stores nothing there (\<open>NoParams\<close>)
  or a map literal whose values are a string, an int, the channel list or another
  request.
\<close>

datatype RpcReq =
  RpcReq (Jsonrpc: string) (req_Method: string) (req_Id: string) (req_Params: req_params)
and req_params = NoParams | ParamMap "(string \<times> req_value) list"
and req_value = VString string | VInt int | VStrings "string list" | VReq RpcReq

subsubsection \<open>Matching object keys to struct fields\<close>

text \<open>
  encoding/json matches an object key to a field name exactly or, failing that, under
  case folding. For the ASCII field names here the folding maps \<open>a\<close>..\<open>z\<close> to
  \<open>A\<close>..\<open>Z\<close>, the long s (bytes C5 BF) to \<open>S\<close> and the Kelvin sign (bytes E2 84 AA)
  to \<open>K\<close>.
\<close>

definition upper :: "char \<Rightarrow> char" where
  "upper c =
     (let n = (of_char c :: nat) in if 97 \<le> n \<and> n \<le> 122 then char_of (n - 32) else c)"

fun foldName :: "string \<Rightarrow> string" where
  "foldName [] = []"
| "foldName (a # b # c # s) =
     (if (of_char a :: nat) = 226 \<and> (of_char b :: nat) = 132 \<and> (of_char c :: nat) = 170
      then CHR ''K'' # foldName s
      else if (of_char a :: nat) = 197 \<and> (of_char b :: nat) = 191
      then CHR ''S'' # foldName (c # s)
      else upper a # foldName (b # c # s))"
| "foldName (a # b # s) =
     (if (of_char a :: nat) = 197 \<and> (of_char b :: nat) = 191
      then CHR ''S'' # foldName s
      else upper a # foldName (b # s))"
| "foldName (a # s) = upper a # foldName s"

definition is_field :: "string \<Rightarrow> string \<Rightarrow> bool" where
  "is_field name key \<longleftrightarrow> key = name \<or> foldName key = foldName name"

subsubsection \<open>Storing a JSON value into a Go value\<close>

text \<open>
  \<open>json.Unmarshal\<close> walks the syntax tree along the target type. \<open>null\<close> clears an
  interface, map or pointer and leaves a string, int or struct as it is; a value of
  the wrong kind for its target is an \<open>UnmarshalTypeError\<close>, which \<open>Unmarshal\<close>
  returns after it has finished. The callers here drop the target on any error, so the
  model stops at the first one. Object keys that match no field are skipped.
\<close>

definition fits_float64 :: "jnum \<Rightarrow> bool" where
  "fits_float64 n =
     (let q = (case n of IntLit i \<Rightarrow> of_int i | FracLit q \<Rightarrow> q)
      in \<bar>q\<bar> < 2 ^ 1024 - 2 ^ 970)"

text \<open>
  Into \<open>any\<close>: every value is stored, a number as float64; a number too large for a
  float64 is a type error (the rounding to float64 itself is not modelled).
\<close>

fun fits_any :: "json \<Rightarrow> bool" where
  "fits_any (JNumber n) = fits_float64 n"
| "fits_any (JArray vs) = list_all fits_any vs"
| "fits_any (JObject ms) = list_all fits_any (map snd ms)"
| "fits_any _ = True"

fun store_string :: "json \<Rightarrow> string \<Rightarrow> json_error + string" where
  "store_string JNull s = Inr s"
| "store_string (JString t) s = Inr t"
| "store_string _ s = Inl UnmarshalTypeError"

text \<open>Go's \<open>int\<close> is taken as 64 bits wide.\<close>

fun store_int :: "json \<Rightarrow> int \<Rightarrow> json_error + int" where
  "store_int JNull n = Inr n"
| "store_int (JNumber (IntLit i)) n =
     (if - (2 ^ 63) \<le> i \<and> i < 2 ^ 63 then Inr i else Inl UnmarshalTypeError)"
| "store_int _ n = Inl UnmarshalTypeError"

text \<open>
  Into a \<open>map[string]any\<close>: an object adds its members to the map in order, a later
  member replacing an earlier one of the same key; \<open>null\<close> makes the map nil.
\<close>

fun store_map :: "json \<Rightarrow> fields \<Rightarrow> json_error + fields" where
  "store_map JNull m = Inr []"
| "store_map (JObject ms) m =
     (if list_all fits_any (map snd ms)
      then Inr (fold (\<lambda>(k, v). AList.update k v) ms m)
      else Inl UnmarshalTypeError)"
| "store_map _ m = Inl UnmarshalTypeError"

text \<open>The members of an object, stored one after the other into a struct.\<close>

fun object :: "(string \<Rightarrow> json \<Rightarrow> 'a \<Rightarrow> json_error + 'a) \<Rightarrow> (string \<times> json) list \<Rightarrow> 'a
    \<Rightarrow> json_error + 'a" where
  "object fld [] x = Inr x"
| "object fld ((k, v) # ms) x =
     (case fld k v x of Inl e \<Rightarrow> Inl e | Inr y \<Rightarrow> object fld ms y)"

definition ErrorMsg_field :: "string \<Rightarrow> json \<Rightarrow> ErrorMsg \<Rightarrow> json_error + ErrorMsg" where
  "ErrorMsg_field k v e =
     (if is_field ''code'' k then map_sum id (\<lambda>n. e\<lparr>Code := n\<rparr>) (store_int v (Code e))
      else if is_field ''message'' k
      then map_sum id (\<lambda>s. e\<lparr>Message := s\<rparr>) (store_string v (Message e))
      else Inr e)"

fun store_ErrorMsg_ptr :: "json \<Rightarrow> ErrorMsg option \<Rightarrow> json_error + ErrorMsg option" where
  "store_ErrorMsg_ptr JNull p = Inr None"
| "store_ErrorMsg_ptr (JObject ms) p =
     map_sum id Some
       (object ErrorMsg_field ms
          (case p of None \<Rightarrow> \<lparr>Code = 0, Message = []\<rparr> | Some e \<Rightarrow> e))"
| "store_ErrorMsg_ptr _ p = Inl UnmarshalTypeError"

definition RpcResponse_field :: "string \<Rightarrow> json \<Rightarrow> RpcResponse \<Rightarrow> json_error + RpcResponse" where
  "RpcResponse_field k v r =
     (if is_field ''id'' k then map_sum id (\<lambda>s. r\<lparr>resp_Id := s\<rparr>) (store_string v (resp_Id r))
      else if is_field ''error'' k
      then map_sum id (\<lambda>p. r\<lparr>resp_Error := p\<rparr>) (store_ErrorMsg_ptr v (resp_Error r))
      else Inr r)"

fun store_RpcResponse :: "json \<Rightarrow> RpcResponse \<Rightarrow> json_error + RpcResponse" where
  "store_RpcResponse JNull r = Inr r"
| "store_RpcResponse (JObject ms) r = object RpcResponse_field ms r"
| "store_RpcResponse _ r = Inl UnmarshalTypeError"

definition Payload_field :: "string \<Rightarrow> json \<Rightarrow> DataUpdateEventPayload
    \<Rightarrow> json_error + DataUpdateEventPayload" where
  "Payload_field k v p =
     (if is_field ''params'' k
      then map_sum id (\<lambda>m. p\<lparr>pay_Params := m\<rparr>) (store_map v (pay_Params p))
      else Inr p)"

fun store_Payload :: "json \<Rightarrow> DataUpdateEventPayload \<Rightarrow> json_error + DataUpdateEventPayload" where
  "store_Payload JNull p = Inr p"
| "store_Payload (JObject ms) p = object Payload_field ms p"
| "store_Payload _ p = Inl UnmarshalTypeError"

definition Params_field :: "string \<Rightarrow> json \<Rightarrow> DataUpdateEventParams
    \<Rightarrow> json_error + DataUpdateEventParams" where
  "Params_field k v p =
     (if is_field ''method'' k
      then map_sum id (\<lambda>s. p\<lparr>par_Method := s\<rparr>) (store_string v (par_Method p))
      else if is_field ''payload'' k
      then map_sum id (\<lambda>q. p\<lparr>Payload := q\<rparr>) (store_Payload v (Payload p))
      else Inr p)"

fun store_Params :: "json \<Rightarrow> DataUpdateEventParams \<Rightarrow> json_error + DataUpdateEventParams" where
  "store_Params JNull p = Inr p"
| "store_Params (JObject ms) p = object Params_field ms p"
| "store_Params _ p = Inl UnmarshalTypeError"

definition Event_field :: "string \<Rightarrow> json \<Rightarrow> DataUpdateEvent \<Rightarrow> json_error + DataUpdateEvent" where
  "Event_field k v ev =
     (if is_field ''method'' k
      then map_sum id (\<lambda>s. ev\<lparr>ev_Method := s\<rparr>) (store_string v (ev_Method ev))
      else if is_field ''params'' k
      then map_sum id (\<lambda>p. ev\<lparr>EdgRpcParams := p\<rparr>) (store_Params v (EdgRpcParams ev))
      else Inr ev)"

fun store_Event :: "json \<Rightarrow> DataUpdateEvent \<Rightarrow> json_error + DataUpdateEvent" where
  "store_Event JNull ev = Inr ev"
| "store_Event (JObject ms) ev = object Event_field ms ev"
| "store_Event _ ev = Inl UnmarshalTypeError"

text \<open>\<open>var resp RpcResponse; err = json.Unmarshal(msg, &resp)\<close>\<close>

definition Unmarshal_RpcResponse :: "frame \<Rightarrow> json_error + RpcResponse" where
  "Unmarshal_RpcResponse msg =
     (case tree msg of
        None \<Rightarrow> Inl SyntaxError
      | Some j \<Rightarrow> store_RpcResponse j \<lparr>resp_Id = [], resp_Error = None\<rparr>)"

text \<open>\<open>var dataEv DataUpdateEvent; err = json.Unmarshal(msg, &dataEv)\<close>\<close>

definition Unmarshal_DataUpdateEvent :: "frame \<Rightarrow> json_error + DataUpdateEvent" where
  "Unmarshal_DataUpdateEvent msg =
     (case tree msg of
        None \<Rightarrow> Inl SyntaxError
      | Some j \<Rightarrow>
          store_Event j
            \<lparr>ev_Method = [],
             EdgRpcParams = \<lparr>par_Method = [], Payload = \<lparr>pay_Params = []\<rparr>\<rparr>\<rparr>)"

subsection \<open>The plugin and the world around it\<close>

datatype level = TraceLevel | InfoLevel | WarnLevel | ErrorLevel

datatype url = Url (Scheme: string) (Host: string)

text \<open>
  The arguments of a log call: a string, an error of the transport (by its text), an
  error of encoding/json, a duration in nanoseconds, an int, a request, a response, the
  received fields, and the text \<open>u.String()\<close> of a url.
\<close>

datatype arg =
    S string
  | E string
  | J json_error
  | Duration nat
  | N int
  | Q RpcReq
  | R RpcResponse
  | M fields
  | U url

text \<open>
  Everything the plugin does to its surroundings, in the order it does it.
  \<open>AddFields name fields\<close> is the call \<open>f.acc.AddFields(name, fields, nil)\<close>; \<open>Sleep\<close>
  carries the duration in nanoseconds.
\<close>

datatype effect =
    Log level "arg list"
  | AddFields string fields
  | Dial url
  | Write RpcReq
  | Read
  | Close
  | Sleep nat

text \<open>
  A websocket connection, seen from the client: what its successive \<open>WriteJSON\<close> calls
  will return (\<open>None\<close> is a nil error) and what its successive \<open>ReadMessage\<close> calls will
  return. A call on an exhausted list never returns.
\<close>

datatype recv = Received frame | ReadError string

record Conn =
  wr :: "string option list"
  rd :: "recv list"

datatype dial = Connected Conn | DialError string

text \<open>
  The fields of \<open>Fems\<close>. \<open>Log\<close> and \<open>acc\<close> are handles of the logger and of the
  accumulator; what is done through them is in the \<open>trace\<close> of the world.
\<close>

record Fems =
  URL :: string
  Password :: string
  Channels :: "string list"
  cnt :: int
  conn :: "Conn option"
  is_stopping :: bool

text \<open>
  The world: what the successive \<open>Dial\<close> calls will return, the strings
  \<open>uuid.New().String()\<close> returns (the \<open>n\<close>-th call returns \<open>uuid n\<close>), the choices of
  Go's runtime for the \<open>range\<close> loops over a map (\<open>range_seeds n\<close> decides the order of
  the \<open>n\<close>-th loop), and the effects so far.
\<close>

record world = Fems +
  dialer :: "dial list"
  uuid :: "nat \<Rightarrow> string"
  uuids :: nat
  range_seeds :: "nat \<Rightarrow> nat list"
  ranges :: nat
  trace :: "effect list"

text \<open>
  A call returns a value, never returns (it waits on the socket for ever), or panics
  (a method of the nil connection).
\<close>

datatype 'a result = Returns 'a | Blocks | Panics

fun and_then :: "'a result \<times> world \<Rightarrow> ('a \<Rightarrow> world \<Rightarrow> 'b result \<times> world) \<Rightarrow> 'b result \<times> world" where
  "and_then (Returns a, f) k = k a f"
| "and_then (Blocks, f) k = (Blocks, f)"
| "and_then (Panics, f) k = (Panics, f)"

definition effect :: "effect \<Rightarrow> world \<Rightarrow> world" where
  "effect e f = f\<lparr>trace := trace f @ [e]\<rparr>"

definition Log_Trace :: "arg list \<Rightarrow> world \<Rightarrow> world" where
  "Log_Trace args = effect (Log TraceLevel args)"

definition Log_Info :: "arg list \<Rightarrow> world \<Rightarrow> world" where
  "Log_Info args = effect (Log InfoLevel args)"

definition Log_Warn :: "arg list \<Rightarrow> world \<Rightarrow> world" where
  "Log_Warn args = effect (Log WarnLevel args)"

definition Log_Error :: "arg list \<Rightarrow> world \<Rightarrow> world" where
  "Log_Error args = effect (Log ErrorLevel args)"

text \<open>\<open>f.conn.WriteJSON(req)\<close>\<close>

definition WriteJSON :: "RpcReq \<Rightarrow> world \<Rightarrow> string option result \<times> world" where
  "WriteJSON req f =
     (case conn f of
        None \<Rightarrow> (Panics, f)
      | Some c \<Rightarrow>
          (case wr c of
             [] \<Rightarrow> (Blocks, effect (Write req) f)
           | err # rest \<Rightarrow> (Returns err, effect (Write req) (f\<lparr>conn := Some (c\<lparr>wr := rest\<rparr>)\<rparr>))))"

text \<open>\<open>f.conn.ReadMessage()\<close>\<close>

definition ReadMessage :: "world \<Rightarrow> (string + frame) result \<times> world" where
  "ReadMessage f =
     (case conn f of
        None \<Rightarrow> (Panics, f)
      | Some c \<Rightarrow>
          (case rd c of
             [] \<Rightarrow> (Blocks, effect Read f)
           | ReadError err # rest \<Rightarrow>
               (Returns (Inl err), effect Read (f\<lparr>conn := Some (c\<lparr>rd := rest\<rparr>)\<rparr>))
           | Received msg # rest \<Rightarrow>
               (Returns (Inr msg), effect Read (f\<lparr>conn := Some (c\<lparr>rd := rest\<rparr>)\<rparr>))))"

text \<open>\<open>websocket.DefaultDialer.Dial(u.String(), nil)\<close>\<close>

definition Dial_call :: "url \<Rightarrow> world \<Rightarrow> (string + Conn) result \<times> world" where
  "Dial_call u f =
     (case dialer f of
        [] \<Rightarrow> (Blocks, effect (Dial u) f)
      | DialError err # rest \<Rightarrow> (Returns (Inl err), effect (Dial u) (f\<lparr>dialer := rest\<rparr>))
      | Connected ws # rest \<Rightarrow> (Returns (Inr ws), effect (Dial u) (f\<lparr>dialer := rest\<rparr>)))"

subsection \<open>The functions of fems.go\<close>

definition getRequest :: "string \<Rightarrow> world \<Rightarrow> RpcReq \<times> world" where
  "getRequest method f =
     (RpcReq ''2.0'' method (uuid f (uuids f)) NoParams, f\<lparr>uuids := Suc (uuids f)\<rparr>)"

definition cleanup :: "world \<Rightarrow> world" where
  "cleanup f =
     (case conn f of
        None \<Rightarrow> f
      | Some c \<Rightarrow> Log_Info [S ''connection closed''] ((effect Close f)\<lparr>conn := None\<rparr>))"

definition Stop :: "world \<Rightarrow> world" where
  "Stop f = cleanup ((Log_Info [S ''Stop''] f)\<lparr>is_stopping := True\<rparr>)"

definition with_Params :: "RpcReq \<Rightarrow> req_params \<Rightarrow> RpcReq" where
  "with_Params r p = RpcReq (Jsonrpc r) (req_Method r) (req_Id r) p"

definition get_subscribe_channels_request :: "world \<Rightarrow> RpcReq \<times> world" where
  "get_subscribe_channels_request f =
     (let (edgeRpc, f) = getRequest ''edgeRpc'' f;
          (subsRpc, f) = getRequest ''subscribeChannels'' f;
          subsRpc = with_Params subsRpc
            (ParamMap [(''count'', VInt 0), (''channels'', VStrings (Channels f))]);
          edgeRpc = with_Params edgeRpc
            (ParamMap [(''edgeId'', VString ''0''), (''payload'', VReq subsRpc)])
      in (edgeRpc, f))"

definition try_subscribe_channels :: "world \<Rightarrow> bool result \<times> world" where
  "try_subscribe_channels f =
     (let (req, f) = get_subscribe_channels_request f in
      and_then (WriteJSON req f) (\<lambda>err f.
        case err of
          Some e \<Rightarrow> (Returns False, Log_Error [S ''failed to send subscribe channels:'', E e] f)
        | None \<Rightarrow>
            and_then (ReadMessage f) (\<lambda>res f.
              case res of
                Inl e \<Rightarrow> (Returns False, Log_Info [S ''read subscribe response:'', E e] f)
              | Inr msg \<Rightarrow>
                  (case Unmarshal_RpcResponse msg of
                     Inl e \<Rightarrow>
                       (Returns False,
                        Log_Info [S ''data was:'', S (raw msg)]
                          (Log_Info [S ''could not parse subscribe response:'', J e] f))
                   | Inr resp \<Rightarrow>
                       if resp_Id resp \<noteq> req_Id req
                       then (Returns False,
                             Log_Error [S ''unexpected response id. sent: '', Q req,
                                        S '' received: '', R resp] f)
                       else (case resp_Error resp of
                               Some er \<Rightarrow>
                                 (Returns False,
                                  Log_Error [S ''channel subscribe failed: '', N (Code er),
                                             S '' - '', S (Message er)] f)
                             | None \<Rightarrow> (Returns True, f))))))"

definition try_login :: "world \<Rightarrow> bool result \<times> world" where
  "try_login f =
     (let (loginReq, f) = getRequest ''authenticateWithPassword'' f;
          loginReq = with_Params loginReq (ParamMap [(''password'', VString (Password f))]);
          f = Log_Trace [S ''sending login request''] f
      in
      and_then (WriteJSON loginReq f) (\<lambda>err f.
        case err of
          Some e \<Rightarrow> (Returns False, Log_Error [S ''write:'', E e] f)
        | None \<Rightarrow>
            and_then (ReadMessage f) (\<lambda>res f.
              case res of
                Inl e \<Rightarrow> (Returns False, Log_Info [S ''read login response:'', E e] f)
              | Inr msg \<Rightarrow>
                  (case Unmarshal_RpcResponse msg of
                     Inl e \<Rightarrow>
                       (Returns False,
                        Log_Info [S ''data was:'', S (raw msg)]
                          (Log_Info [S ''could not parse login response:'', J e] f))
                   | Inr loginResp \<Rightarrow>
                       if resp_Id loginResp \<noteq> req_Id loginReq
                       then (Returns False,
                             Log_Error [S ''unexpected response id: '', R loginResp] f)
                       else
                         (let f = Log_Trace [S ''got login response''] f in
                          case resp_Error loginResp of
                            Some er \<Rightarrow>
                              (Returns False,
                               Log_Error [S ''Login failed: '', N (Code er), S '' - '',
                                          S (Message er)] f)
                          | None \<Rightarrow> (Returns True, Log_Info [S ''login succeeded''] f))))))"

text \<open>
  Go visits the entries of a map in an order that it leaves open and varies from one
  \<open>range\<close> loop to the next. A choice of the runtime is a list of numbers, each of which
  selects the next entry among those not yet visited; when the numbers run out, the
  rest is visited as it stands. Whatever the numbers, every entry is visited once
  (\<open>mset_pick\<close> below), and every order of the entries is the choice of some numbers
  (\<open>pick_any_order\<close> below).
\<close>

fun pick :: "nat list \<Rightarrow> 'a list \<Rightarrow> 'a list" where
  "pick seeds [] = []"
| "pick [] xs = xs"
| "pick (s # seeds) xs =
     (let i = s mod length xs in xs ! i # pick seeds (take i xs @ drop (Suc i) xs))"

text \<open>The order in which the next \<open>range\<close> loop visits \<open>data\<close>.\<close>

definition visit :: "world \<Rightarrow> fields \<Rightarrow> fields" where
  "visit f data = pick (range_seeds f (ranges f)) data"

definition range_order :: "fields \<Rightarrow> world \<Rightarrow> fields \<times> world" where
  "range_order data f = (visit f data, f\<lparr>ranges := Suc (ranges f)\<rparr>)"

text \<open>
  The \<open>range\<close> loop of \<open>try_handel_msgs_forever\<close>: it visits the entries of \<open>data\<close> in
  the order of its first argument and deletes from \<open>data\<close> (second argument) every key
  whose value is nil, with a warning. It deletes the key it is at and no other, so no
  entry is skipped.
\<close>

fun range_delete_nil :: "fields \<Rightarrow> fields \<Rightarrow> world \<Rightarrow> fields \<times> world" where
  "range_delete_nil [] data f = (data, f)"
| "range_delete_nil ((key, value) # entries) data f =
     (if value = JNull
      then range_delete_nil entries (AList.delete key data)
             (Log_Warn [S (''no data for channel '' @ [CHR 0x27]), S key,
                        S (CHR 0x27 # '' received. This most likely means the channel does not exist.'')] f)
      else range_delete_nil entries data f)"

text \<open>
  The body of the loop of \<open>try_handel_msgs_forever\<close> once \<open>ReadMessage\<close> has returned
  a message (lines 236 to 258); each of its three ends goes on with the next
  \<open>ReadMessage\<close>.
\<close>

definition handle_message :: "frame \<Rightarrow> world \<Rightarrow> world" where
  "handle_message msg f =
     (case Unmarshal_DataUpdateEvent msg of
        Inl e \<Rightarrow>
          Log_Info [S ''data was:'', S (raw msg)]
            (Log_Info [S ''could not parse received data:'', J e] f)
      | Inr dataEv \<Rightarrow>
          (let data = pay_Params (Payload (EdgRpcParams dataEv));
               f = Log_Trace [S ''FEMS RX: '', M data] f;
               (entries, f) = range_order data f;
               (data, f) = range_delete_nil entries data f
           in if length data = 0
              then Log_Warn [S ''No measurement data!!! Original message was: '', S (raw msg)] f
              else effect (AddFields ''fems'' data) f))"

lemma and_then_cong [fundef_cong]:
  assumes "m = m'" and "\<And>a f. m' = (Returns a, f) \<Longrightarrow> k a f = k' a f"
  shows "and_then m k = and_then m' k'"
proof (cases m')
  case (Pair r f)
  with assms show ?thesis by (cases r) auto
qed

text \<open>What the connection still has to deliver: the loop below ends when it is used up.\<close>

definition unread :: "world \<Rightarrow> nat" where
  "unread f = (case conn f of None \<Rightarrow> 0 | Some c \<Rightarrow> length (rd c))"

lemma conn_effect [simp]: "conn (effect e f) = conn f"
  by (simp add: effect_def)

lemma dialer_effect [simp]: "dialer (effect e f) = dialer f"
  by (simp add: effect_def)

lemma is_stopping_effect [simp]: "is_stopping (effect e f) = is_stopping f"
  by (simp add: effect_def)

lemma trace_effect [simp]: "trace (effect e f) = trace f @ [e]"
  by (simp add: effect_def)

lemmas Log_defs = Log_Trace_def Log_Info_def Log_Warn_def Log_Error_def

lemma conn_range_delete_nil [simp]: "conn (snd (range_delete_nil es data f)) = conn f"
  by (induction es data f rule: range_delete_nil.induct) (simp_all add: Log_defs)

lemma conn_handle_message [simp]: "conn (handle_message msg f) = conn f"
  by (simp add: handle_message_def range_order_def Log_defs Let_def split_beta split: sum.splits)

lemma ReadMessage_unread:
  "ReadMessage f = (Returns res, g) \<Longrightarrow> unread g < unread f"
  by (auto simp: ReadMessage_def unread_def split: option.splits list.splits recv.splits)

text \<open>
  The loop of \<open>try_handel_msgs_forever\<close>. It returns on a read error; when the
  connection delivers nothing more, the last \<open>ReadMessage\<close> never returns and the result
  is \<open>Blocks\<close>.
\<close>

function try_handel_msgs_forever :: "world \<Rightarrow> unit result \<times> world" where
  "try_handel_msgs_forever f =
     and_then (ReadMessage f) (\<lambda>res f.
       case res of
         Inl err \<Rightarrow>
           (Returns (), if is_stopping f = False then Log_Info [S ''read error: '', E err] f else f)
       | Inr msg \<Rightarrow> try_handel_msgs_forever (handle_message msg f))"
  by pat_completeness auto
termination
  by (relation "measure unread") (auto simp: unread_def dest!: ReadMessage_unread [unfolded unread_def])

declare try_handel_msgs_forever.simps [simp del]

text \<open>The durations of the \<open>time.Sleep\<close> calls among some effects.\<close>

fun sleeps :: "effect list \<Rightarrow> nat list" where
  "sleeps [] = []"
| "sleeps (Sleep d # es) = d # sleeps es"
| "sleeps (e # es) = sleeps es"

lemma sleeps_append [simp]: "sleeps (xs @ ys) = sleeps xs @ sleeps ys"
  by (induction xs rule: sleeps.induct) simp_all

text \<open>
  What login, subscription and streaming do to a world: they dial nothing, leave the
  shutdown flag alone, add to the trace only, and never sleep. The loop of \<open>connect\<close>
  terminates on the list of dial results because of the first.
\<close>

definition same_frame :: "world \<Rightarrow> world \<Rightarrow> bool" where
  "same_frame f g \<longleftrightarrow>
     length (dialer g) \<le> length (dialer f) \<and> is_stopping g = is_stopping f \<and>
     (\<exists>es. trace g = trace f @ es \<and> sleeps es = [])"

lemma same_frame_refl [simp]: "same_frame f f"
  by (simp add: same_frame_def)

lemma same_frame_trans: "same_frame f g \<Longrightarrow> same_frame g h \<Longrightarrow> same_frame f h"
  by (auto simp: same_frame_def)

lemma same_frame_Log [intro!]:
  "same_frame f g \<Longrightarrow> same_frame f (Log_Trace a g)"
  "same_frame f g \<Longrightarrow> same_frame f (Log_Info a g)"
  "same_frame f g \<Longrightarrow> same_frame f (Log_Warn a g)"
  "same_frame f g \<Longrightarrow> same_frame f (Log_Error a g)"
  by (auto simp: same_frame_def Log_defs)

lemma same_frame_and_then:
  assumes "same_frame f (snd m)"
    and "\<And>a g. m = (Returns a, g) \<Longrightarrow> same_frame f g \<Longrightarrow> same_frame f (snd (k a g))"
  shows "same_frame f (snd (and_then m k))"
proof (cases m)
  case (Pair r g)
  with assms show ?thesis by (cases r) auto
qed

lemma same_frame_WriteJSON: "same_frame f g \<Longrightarrow> same_frame f (snd (WriteJSON req g))"
  by (auto simp: WriteJSON_def same_frame_def split: option.splits list.splits)

lemma same_frame_ReadMessage: "same_frame f g \<Longrightarrow> same_frame f (snd (ReadMessage g))"
  by (auto simp: ReadMessage_def same_frame_def split: option.splits list.splits recv.splits)

lemma same_frame_getRequest: "same_frame f g \<Longrightarrow> same_frame f (snd (getRequest m g))"
  by (simp add: getRequest_def same_frame_def)

lemma same_frame_try_login: "same_frame f (snd (try_login f))"
  unfolding try_login_def Let_def split_beta
  by (auto simp: same_frame_getRequest split: option.splits sum.splits
        intro!: same_frame_and_then same_frame_WriteJSON same_frame_ReadMessage)

lemma same_frame_try_subscribe_channels: "same_frame f (snd (try_subscribe_channels f))"
  unfolding try_subscribe_channels_def get_subscribe_channels_request_def Let_def split_beta
  by (auto simp: same_frame_getRequest split: option.splits sum.splits
        intro!: same_frame_and_then same_frame_WriteJSON same_frame_ReadMessage)

lemma same_frame_range_delete_nil:
  "same_frame f g \<Longrightarrow> same_frame f (snd (range_delete_nil es data g))"
  by (induction es data g rule: range_delete_nil.induct) auto

lemma same_frame_effect_AddFields:
  "same_frame f g \<Longrightarrow> same_frame f (effect (AddFields name data) g)"
  by (auto simp: same_frame_def)

lemma same_frame_ranges: "same_frame f g \<Longrightarrow> same_frame f (g\<lparr>ranges := n\<rparr>)"
  by (simp add: same_frame_def)

lemma same_frame_handle_message: "same_frame f g \<Longrightarrow> same_frame f (handle_message msg g)"
  by (auto simp: handle_message_def range_order_def Let_def split_beta split: sum.splits
      intro!: same_frame_effect_AddFields same_frame_range_delete_nil same_frame_ranges)

lemma same_frame_try_handel_msgs_forever:
  "same_frame f g \<Longrightarrow> same_frame f (snd (try_handel_msgs_forever g))"
proof (induction g rule: try_handel_msgs_forever.induct)
  case (1 g)
  show ?case
  proof (subst try_handel_msgs_forever.simps, rule same_frame_and_then)
    show "same_frame f (snd (ReadMessage g))"
      by (rule same_frame_ReadMessage [OF "1.prems"])
  next
    fix res h
    assume "ReadMessage g = (Returns res, h)" and "same_frame f h"
    then show "same_frame f (snd (case res of
         Inl err \<Rightarrow>
           (Returns (), if is_stopping h = False then Log_Info [S ''read error: '', E err] h else h)
       | Inr msg \<Rightarrow> try_handel_msgs_forever (handle_message msg h)))"
      using "1.IH" by (cases res) (auto simp: same_frame_handle_message)
  qed
qed

text \<open>
  \<open>time.Second\<close>, in nanoseconds. Then the block \<open>if first == false { ... }\<close> of
  \<open>connect\<close> (lines 115 to 123); \<open>Inl\<close> is its \<open>return\<close>.
\<close>

definition Second :: nat where
  "Second = 1000000000"

definition before_attempt :: "bool \<Rightarrow> world \<Rightarrow> world + world" where
  "before_attempt first f =
     (if first = False
      then (let f = cleanup f in
            if is_stopping f then Inl f
            else (let wait = 10 * Second;
                      f = Log_Warn [S ''Connection failure reconnecting in '', Duration wait] f
                  in Inr (effect (Sleep wait) f)))
      else Inr f)"

text \<open>
  The loop body of \<open>connect\<close> once the dial has succeeded, from \<open>f.conn = ws\<close> on
  (lines 135 to 145). Each \<open>continue\<close> and the end of the body return to the head of
  the loop.
\<close>

definition session :: "Conn \<Rightarrow> world \<Rightarrow> unit result \<times> world" where
  "session ws f =
     and_then (try_login (f\<lparr>conn := Some ws\<rparr>)) (\<lambda>ok f.
       if ok = False then (Returns (), f)
       else and_then (try_subscribe_channels f) (\<lambda>ok f.
         if ok = False then (Returns (), f)
         else try_handel_msgs_forever f))"

text \<open>
  The loop body of \<open>connect\<close> after the block above, from \<open>u := url.URL{...}\<close> on
  (lines 127 to 134, then the session).
\<close>

definition attempt :: "world \<Rightarrow> unit result \<times> world" where
  "attempt f =
     (let u = Url ''ws'' (URL f);
          f = Log_Info [S ''Connecting to '', U u] f
      in and_then (Dial_call u f) (\<lambda>res f.
           case res of
             Inl err \<Rightarrow> (Returns (), Log_Error [S ''dial:'', E err] f)
           | Inr ws \<Rightarrow> session ws f))"

lemma same_frame_cleanup: "same_frame f (cleanup f)"
  by (auto simp: cleanup_def same_frame_def Log_defs effect_def split: option.splits)

lemma same_frame_Dial_call: "same_frame f g \<Longrightarrow> same_frame f (snd (Dial_call u g))"
  by (auto simp: Dial_call_def same_frame_def split: list.splits dial.splits)

lemma same_frame_conn: "same_frame f g \<Longrightarrow> same_frame f (g\<lparr>conn := c\<rparr>)"
  by (simp add: same_frame_def)

lemma same_frame_session:
  assumes g: "same_frame f g"
  shows "same_frame f (snd (session ws g))"
  unfolding session_def
proof (rule same_frame_and_then)
  show "same_frame f (snd (try_login (g\<lparr>conn := Some ws\<rparr>)))"
    by (rule same_frame_trans [OF same_frame_conn [OF g] same_frame_try_login])
next
  fix ok h
  assume h: "same_frame f h"
  have "same_frame f (snd (and_then (try_subscribe_channels h) (\<lambda>ok f.
         if ok = False then (Returns (), f)
         else try_handel_msgs_forever f)))"
  proof (rule same_frame_and_then)
    show "same_frame f (snd (try_subscribe_channels h))"
      by (rule same_frame_trans [OF h same_frame_try_subscribe_channels])
  next
    fix ok2 h2
    assume "same_frame f h2"
    then show "same_frame f (snd (if ok2 = False then (Returns (), h2)
        else try_handel_msgs_forever h2))"
      by (simp add: same_frame_try_handel_msgs_forever)
  qed
  with h show "same_frame f (snd (if ok = False then (Returns (), h)
       else and_then (try_subscribe_channels h) (\<lambda>ok f.
         if ok = False then (Returns (), f)
         else try_handel_msgs_forever f)))"
    by simp
qed

lemma same_frame_after_dial:
  "same_frame f g \<Longrightarrow>
   same_frame f (snd (case res of
       Inl err \<Rightarrow> (Returns (), Log_Error [S ''dial:'', E err] g)
     | Inr ws \<Rightarrow> session ws g))"
  by (cases res) (simp_all add: same_frame_Log same_frame_session)

lemma same_frame_attempt: "same_frame f (snd (attempt f))"
  unfolding attempt_def Let_def
  by (intro same_frame_and_then same_frame_after_dial same_frame_Dial_call same_frame_Log
      same_frame_refl)

lemma and_then_Returns:
  assumes "and_then m k = (Returns b, h)"
  shows "\<exists>a g. m = (Returns a, g) \<and> k a g = (Returns b, h)"
proof (cases m)
  case (Pair r g)
  with assms show ?thesis by (cases r) auto
qed

lemma Dial_call_dialer:
  "Dial_call u f = (Returns res, g) \<Longrightarrow> length (dialer g) < length (dialer f)"
  by (auto simp: Dial_call_def split: list.splits dial.splits)

lemma attempt_dialer:
  assumes "attempt f = (Returns x, g)"
  shows "length (dialer g) < length (dialer f)"
proof -
  let ?u = "Url ''ws'' (URL f)"
  let ?f = "Log_Info [S ''Connecting to '', U ?u] f"
  let ?k = "\<lambda>res f. case res of
       Inl err \<Rightarrow> (Returns (), Log_Error [S ''dial:'', E err] f)
     | Inr ws \<Rightarrow> session ws f"
  from assms have "and_then (Dial_call ?u ?f) ?k = (Returns x, g)"
    by (simp add: attempt_def Let_def)
  then obtain res h where d: "Dial_call ?u ?f = (Returns res, h)" and k: "?k res h = (Returns x, g)"
    by (blast dest: and_then_Returns)
  have "same_frame h (snd (?k res h))"
    by (rule same_frame_after_dial [OF same_frame_refl])
  with k have "length (dialer g) \<le> length (dialer h)" by (simp add: same_frame_def)
  moreover from d have "length (dialer h) < length (dialer ?f)" by (rule Dial_call_dialer)
  ultimately show ?thesis by (simp add: Log_defs)
qed

lemma dialer_cleanup [simp]: "dialer (cleanup f) = dialer f"
  by (simp add: cleanup_def Log_defs split: option.splits)

lemma before_attempt_dialer: "before_attempt first f = Inr g \<Longrightarrow> dialer g = dialer f"
  by (auto simp: before_attempt_def Let_def Log_defs split: if_splits)

text \<open>
  The loop of \<open>connect\<close>; \<open>first\<close> is its local variable. The loop has no exit but the
  \<open>return\<close> of the block at its head; when no dial result is left, the last \<open>Dial\<close>
  never returns and the result is \<open>Blocks\<close>.
\<close>

function connect_loop :: "bool \<Rightarrow> world \<Rightarrow> unit result \<times> world" where
  "connect_loop first f =
     (case before_attempt first f of
        Inl f \<Rightarrow> (Returns (), f)
      | Inr f \<Rightarrow> and_then (attempt f) (\<lambda>_ f. connect_loop False f))"
  by pat_completeness auto
termination
proof (relation "measure (\<lambda>(first, f). length (dialer f))")
  show "wf (measure (\<lambda>(first, f). length (dialer f)))" by simp
qed (auto dest!: before_attempt_dialer attempt_dialer)

declare connect_loop.simps [simp del]

definition connect :: "world \<Rightarrow> unit result \<times> world" where
  "connect f = connect_loop True f"

subsection \<open>Names used in the statements\<close>

text \<open>The warning of the \<open>range\<close> loop for one channel, as it stands in the trace.\<close>

definition no_data_warning :: "string \<Rightarrow> effect" where
  "no_data_warning key =
     Log WarnLevel [S (''no data for channel '' @ [CHR 0x27]), S key,
       S (CHR 0x27 # '' received. This most likely means the channel does not exist.'')]"

abbreviation (input) is_nil :: "string \<times> json \<Rightarrow> bool" where
  "is_nil \<equiv> \<lambda>(key, value). value = JNull"

abbreviation (input) non_nil :: "string \<times> json \<Rightarrow> bool" where
  "non_nil \<equiv> \<lambda>(key, value). value \<noteq> JNull"

text \<open>
  The warnings of the next \<open>range\<close> loop of the world \<open>f\<close> over \<open>data\<close>, in the order in
  which the loop visits the channels.
\<close>

definition warnings :: "world \<Rightarrow> fields \<Rightarrow> effect list" where
  "warnings f data = map (no_data_warning \<circ> fst) (filter is_nil (visit f data))"

text \<open>The keys of a decoded channel mapping are distinct, as those of a Go map are.\<close>

definition distinct_Payload :: "DataUpdateEventPayload \<Rightarrow> bool" where
  "distinct_Payload p \<longleftrightarrow> distinct (map fst (pay_Params p))"

text \<open>\<open>data := dataEv.EdgRpcParams.Payload.Params\<close>\<close>

definition event_data :: "DataUpdateEvent \<Rightarrow> fields" where
  "event_data dataEv = pay_Params (Payload (EdgRpcParams dataEv))"

text \<open>The zero value of \<open>DataUpdateEvent\<close>, which \<open>var dataEv DataUpdateEvent\<close> declares.\<close>

definition zero_event :: DataUpdateEvent where
  "zero_event =
     \<lparr>ev_Method = [], EdgRpcParams = \<lparr>par_Method = [], Payload = \<lparr>pay_Params = []\<rparr>\<rparr>\<rparr>"

text \<open>The request \<open>try_login\<close> builds (lines 186 and 187 of the source).\<close>

definition login_request :: "world \<Rightarrow> RpcReq" where
  "login_request f =
     RpcReq ''2.0'' ''authenticateWithPassword'' (uuid f (uuids f))
       (ParamMap [(''password'', VString (Password f))])"

text \<open>The request \<open>try_subscribe_channels\<close> builds (line 151 of the source).\<close>

definition subscribe_request :: "world \<Rightarrow> RpcReq" where
  "subscribe_request f = fst (get_subscribe_channels_request f)"

text \<open>
  What \<open>connect\<close> may do to a world: it leaves \<open>is_stopping\<close> alone, it only adds to the
  trace, and every \<open>Sleep\<close> it adds lasts ten seconds.
\<close>

definition backoff_only :: "world \<Rightarrow> world \<Rightarrow> bool" where
  "backoff_only f g \<longleftrightarrow>
     is_stopping g = is_stopping f \<and>
     (\<exists>es n. trace g = trace f @ es \<and> sleeps es = replicate n (10 * Second))"

text \<open>The log entries above trace level among some effects.\<close>

fun reports :: "effect list \<Rightarrow> effect list" where
  "reports [] = []"
| "reports (Log l a # es) = (if l = TraceLevel then reports es else Log l a # reports es)"
| "reports (e # es) = reports es"

text \<open>
  A JSON value against the shape of a push event. First, the values that fit the
  declared kinds and leave the channel mapping absent or empty: at every level a field
  is missing, \<open>null\<close>, or of its kind (a string for \<open>method\<close>, an object for \<open>params\<close> and
  \<open>payload\<close>), and the channel mapping is missing, \<open>null\<close> or \<open>{}\<close>.
\<close>

definition string_or_null :: "json \<Rightarrow> bool" where
  "string_or_null v = (case v of JNull \<Rightarrow> True | JString s \<Rightarrow> True | _ \<Rightarrow> False)"

definition channels_left_empty :: "json \<Rightarrow> bool" where
  "channels_left_empty v = (case v of JNull \<Rightarrow> True | JObject ms \<Rightarrow> ms = [] | _ \<Rightarrow> False)"

definition payload_left_empty :: "json \<Rightarrow> bool" where
  "payload_left_empty v =
     (case v of
        JNull \<Rightarrow> True
      | JObject ms \<Rightarrow> list_all (\<lambda>(k, x). is_field ''params'' k \<longrightarrow> channels_left_empty x) ms
      | _ \<Rightarrow> False)"

definition params_left_empty :: "json \<Rightarrow> bool" where
  "params_left_empty v =
     (case v of
        JNull \<Rightarrow> True
      | JObject ms \<Rightarrow>
          list_all (\<lambda>(k, x). (is_field ''method'' k \<longrightarrow> string_or_null x) \<and>
                              (is_field ''payload'' k \<longrightarrow> payload_left_empty x)) ms
      | _ \<Rightarrow> False)"

definition event_left_empty :: "json \<Rightarrow> bool" where
  "event_left_empty j =
     (case j of
        JNull \<Rightarrow> True
      | JObject ms \<Rightarrow>
          list_all (\<lambda>(k, x). (is_field ''method'' k \<longrightarrow> string_or_null x) \<and>
                              (is_field ''params'' k \<longrightarrow> params_left_empty x)) ms
      | _ \<Rightarrow> False)"

text \<open>
  Second, the values in which a field that is present has another kind than the struct
  declares: the message is no object, a \<open>method\<close> is no string, a \<open>params\<close> or \<open>payload\<close>
  is no object, or the channel mapping is no object or holds a number too large for a
  float64.
\<close>

definition channels_conflict :: "json \<Rightarrow> bool" where
  "channels_conflict v =
     (case v of
        JNull \<Rightarrow> False
      | JObject ms \<Rightarrow> \<not> list_all fits_any (map snd ms)
      | _ \<Rightarrow> True)"

definition payload_conflict :: "json \<Rightarrow> bool" where
  "payload_conflict v =
     (case v of
        JNull \<Rightarrow> False
      | JObject ms \<Rightarrow> list_ex (\<lambda>(k, x). is_field ''params'' k \<and> channels_conflict x) ms
      | _ \<Rightarrow> True)"

definition params_conflict :: "json \<Rightarrow> bool" where
  "params_conflict v =
     (case v of
        JNull \<Rightarrow> False
      | JObject ms \<Rightarrow>
          list_ex (\<lambda>(k, x). is_field ''method'' k \<and> \<not> string_or_null x \<or>
                            is_field ''payload'' k \<and> payload_conflict x) ms
      | _ \<Rightarrow> True)"

definition event_conflict :: "json \<Rightarrow> bool" where
  "event_conflict j =
     (case j of
        JNull \<Rightarrow> False
      | JObject ms \<Rightarrow>
          list_ex (\<lambda>(k, x). is_field ''method'' k \<and> \<not> string_or_null x \<or>
                            is_field ''params'' k \<and> params_conflict x) ms
      | _ \<Rightarrow> True)"

subsection \<open>Example worlds and messages\<close>

text \<open>A uuid generator: its strings are \<open>uuid-\<close>, \<open>uuid-i\<close>, \<open>uuid-ii\<close> and so on.\<close>

definition uuid0 :: "nat \<Rightarrow> string" where
  "uuid0 n = ''uuid-'' @ replicate n (CHR ''i'')"

text \<open>
  A configured plugin that has not connected yet, in a world where nothing answers and
  where every \<open>range\<close> loop begins with the second entry of its map.
\<close>

definition fems0 :: world where
  "fems0 =
     \<lparr>URL = ''fems.local:8085'', Password = ''owner'',
      Channels = [''_sum/EssSoc'', ''_sum/GridActivePower''], cnt = 0, conn = None,
      is_stopping = False, dialer = [], uuid = uuid0, uuids = 0,
      range_seeds = (\<lambda>n. [1]), ranges = 0, trace = []\<rparr>"

text \<open>The same plugin holding a connection on which nothing will happen.\<close>

definition idle :: Conn where
  "idle = \<lparr>wr = [], rd = []\<rparr>"

definition fems_open :: world where
  "fems_open = fems0\<lparr>conn := Some idle\<rparr>"

text \<open>A push event with one value and one channel without value, and what it decodes to.\<close>

definition push_frame :: frame where
  "push_frame =
     Frame ''{\"method\":\"event\",\"params\":{\"method\":\"x\",\"payload\":{\"params\":{\"ch1\":42,\"ch2\":null}}}}''
       (Some (JObject [(''method'', JString ''event''),
          (''params'', JObject [(''method'', JString ''x''),
             (''payload'', JObject [(''params'',
                JObject [(''ch1'', JNumber (IntLit 42)), (''ch2'', JNull)])])])]))"

definition push_event :: DataUpdateEvent where
  "push_event =
     \<lparr>ev_Method = ''event'',
      EdgRpcParams = \<lparr>par_Method = ''x'',
        Payload = \<lparr>pay_Params = [(''ch1'', JNumber (IntLit 42)), (''ch2'', JNull)]\<rparr>\<rparr>\<rparr>"

text \<open>The plugin in its streaming loop, on a connection that will deliver \<open>rs\<close>.\<close>

definition streaming :: "recv list \<Rightarrow> world" where
  "streaming rs = fems0\<lparr>conn := Some \<lparr>wr = [], rd = rs\<rparr>\<rparr>"

text \<open>A push event in which no channel has a value.\<close>

definition null_frame :: frame where
  "null_frame =
     Frame ''{\"params\":{\"payload\":{\"params\":{\"ch2\":null,\"ch3\":null}}}}''
       (Some (JObject [(''params'', JObject [(''payload'', JObject [(''params'',
          JObject [(''ch2'', JNull), (''ch3'', JNull)])])])]))"

definition null_event :: DataUpdateEvent where
  "null_event =
     \<lparr>ev_Method = [],
      EdgRpcParams = \<lparr>par_Method = [],
        Payload = \<lparr>pay_Params = [(''ch2'', JNull), (''ch3'', JNull)]\<rparr>\<rparr>\<rparr>"

text \<open>A message that is cut off, so not a JSON text.\<close>

definition garbled_frame :: frame where
  "garbled_frame = Frame ''{\"method\":'' None"

text \<open>A push event with the values 0, false, the empty string, null and 0.0.\<close>

definition falsy_frame :: frame where
  "falsy_frame =
     Frame ''{\"params\":{\"payload\":{\"params\":{\"a\":0,\"b\":false,\"c\":\"\",\"d\":null,\"e\":0.0}}}}''
       (Some (JObject [(''params'', JObject [(''payload'', JObject [(''params'',
          JObject [(''a'', JNumber (IntLit 0)), (''b'', JBool False), (''c'', JString []),
                   (''d'', JNull), (''e'', JNumber (FracLit 0))])])])]))"

definition falsy_event :: DataUpdateEvent where
  "falsy_event =
     \<lparr>ev_Method = [],
      EdgRpcParams = \<lparr>par_Method = [],
        Payload = \<lparr>pay_Params = [(''a'', JNumber (IntLit 0)), (''b'', JBool False),
          (''c'', JString []), (''d'', JNull), (''e'', JNumber (FracLit 0))]\<rparr>\<rparr>\<rparr>"

text \<open>A JSON object whose \<open>method\<close> is a number, and a JSON-RPC reply without \<open>method\<close> and \<open>params\<close>.\<close>

definition mistyped_frame :: frame where
  "mistyped_frame = Frame ''{\"method\":5}'' (Some (JObject [(''method'', JNumber (IntLit 5))]))"

definition reply_frame :: frame where
  "reply_frame =
     Frame ''{\"jsonrpc\":\"2.0\",\"id\":\"7\",\"result\":{}}''
       (Some (JObject [(''jsonrpc'', JString ''2.0''), (''id'', JString ''7''),
                       (''result'', JObject [])]))"

text \<open>
  A message whose \<open>payload\<close> is null, and one whose channel mapping is an array.
\<close>

definition null_payload_frame :: frame where
  "null_payload_frame =
     Frame ''{\"method\":null,\"params\":{\"payload\":null}}''
       (Some (JObject [(''method'', JNull), (''params'', JObject [(''payload'', JNull)])]))"

definition array_channels_frame :: frame where
  "array_channels_frame =
     Frame ''{\"params\":{\"payload\":{\"params\":[]}}}''
       (Some (JObject [(''params'', JObject [(''payload'', JObject [(''params'', JArray [])])])]))"

text \<open>
  The plugin right after a successful dial: two writes will succeed, and the connection
  will deliver \<open>rs\<close>. Then a response without error and one with an error, for the id
  \<open>i\<close>.
\<close>

definition logging_in :: "recv list \<Rightarrow> world" where
  "logging_in rs = fems0\<lparr>conn := Some \<lparr>wr = [None, None], rd = rs\<rparr>\<rparr>"

definition accepted :: "string \<Rightarrow> frame" where
  "accepted i =
     Frame (''{\"jsonrpc\":\"2.0\",\"id\":\"'' @ i @ ''\",\"result\":{}}'')
       (Some (JObject [(''jsonrpc'', JString ''2.0''), (''id'', JString i), (''result'', JObject [])]))"

definition denied :: "string \<Rightarrow> frame" where
  "denied i =
     Frame (''{\"id\":\"'' @ i @ ''\",\"error\":{\"code\":1,\"message\":\"bad password\"}}'')
       (Some (JObject [(''id'', JString i),
          (''error'', JObject [(''code'', JNumber (IntLit 1)), (''message'', JString ''bad password'')])]))"

text \<open>The subscription request of \<open>fems0\<close>.\<close>

definition example_subscription :: RpcReq where
  "example_subscription =
     RpcReq ''2.0'' ''edgeRpc'' ''uuid-''
       (ParamMap [(''edgeId'', VString ''0''),
          (''payload'', VReq (RpcReq ''2.0'' ''subscribeChannels'' ''uuid-i''
             (ParamMap [(''count'', VInt 0),
                (''channels'', VStrings [''_sum/EssSoc'', ''_sum/GridActivePower''])])))])"

text \<open>A world in which the first dial is refused and the second never returns.\<close>

definition refused :: world where
  "refused = fems0\<lparr>dialer := [DialError ''connection refused'']\<rparr>"

section \<open>Properties\<close>

subsection \<open>cleanup\<close>

lemma cleanup_closed: "conn f = None \<Longrightarrow> cleanup f = f"
  by (simp add: cleanup_def)

lemma conn_cleanup [simp]: "conn (cleanup f) = None"
  by (simp add: cleanup_def Log_defs split: option.splits)

lemma cleanup_cleanup [simp]: "cleanup (cleanup f) = cleanup f"
  by (simp add: cleanup_closed)

lemma cleanup_funpow: "(cleanup ^^ Suc n) f = cleanup f"
  by (induction n) simp_all

lemma trace_cleanup:
  "trace (cleanup f) =
     trace f @ (if conn f = None then [] else [Close, Log InfoLevel [S ''connection closed'']])"
  by (simp add: cleanup_def Log_defs effect_def split: option.splits)

text \<open>
  C6. \<open>cleanup\<close> is idempotent. On a plugin without connection it changes nothing, so it
  logs nothing. After any call the connection handle is nil. However often it is called
  in a row (\<open>Suc n\<close> times), the result is that of one call, and the trace has grown by
  one \<open>Close\<close> and one "connection closed" entry if there was a connection, and by
  nothing otherwise: the entry is logged once per real close. The model is total:
  \<open>cleanup\<close> raises nothing.
\<close>

theorem cleanup_idempotent:
  "(conn f = None \<longrightarrow> cleanup f = f) \<and>
   conn (cleanup f) = None \<and>
   cleanup (cleanup f) = cleanup f \<and>
   (cleanup ^^ Suc n) f = cleanup f \<and>
   trace ((cleanup ^^ Suc n) f) =
     trace f @ (if conn f = None then [] else [Close, Log InfoLevel [S ''connection closed'']])"
  by (simp only: cleanup_funpow trace_cleanup cleanup_cleanup conn_cleanup)
     (simp add: cleanup_closed)

theorem cleanup_idempotent_witness:
  "conn fems0 = None \<and> cleanup fems0 = fems0 \<and>
   conn fems_open = Some idle \<and> conn (cleanup fems_open) = None \<and>
   trace (cleanup (cleanup (cleanup fems_open))) =
     [Close, Log InfoLevel [S ''connection closed'']]"
  using cleanup_idempotent [of fems0 0] cleanup_idempotent [of fems_open 2]
  by (simp add: fems0_def fems_open_def numeral_2_eq_2)

subsection \<open>The order of a range loop\<close>

lemma mset_pick: "mset (pick seeds xs) = mset xs"
proof (induction seeds xs rule: pick.induct)
  case (3 s seeds x xs)
  let ?ys = "x # xs"
  let ?i = "s mod length ?ys"
  have i: "?i < length ?ys" by simp
  have "mset (pick (s # seeds) ?ys) = mset (?ys ! ?i # (take ?i ?ys @ drop (Suc ?i) ?ys))"
    using 3 by (simp add: Let_def)
  also have "\<dots> = mset (take ?i ?ys @ ?ys ! ?i # drop (Suc ?i) ?ys)" by simp
  also have "\<dots> = mset ?ys" using id_take_nth_drop [OF i] by simp
  finally show ?case .
qed simp_all

lemma set_pick [simp]: "set (pick seeds xs) = set xs"
  using mset_pick [of seeds xs] by (metis set_mset_mset)

lemma pick_any_order: "mset ys = mset xs \<Longrightarrow> \<exists>seeds. pick seeds xs = ys"
proof (induction ys arbitrary: xs)
  case Nil
  then have "pick [] xs = []" by simp
  then show ?case ..
next
  case (Cons y ys)
  from Cons.prems have "y \<in> set xs" by (metis list.set_intros(1) set_mset_mset)
  then obtain i where i: "i < length xs" and y: "xs ! i = y" by (auto simp: in_set_conv_nth)
  let ?rest = "take i xs @ drop (Suc i) xs"
  have "mset xs = mset (take i xs @ xs ! i # drop (Suc i) xs)"
    using id_take_nth_drop [OF i] by simp
  with Cons.prems y have "mset ys = mset ?rest" by simp
  from Cons.IH [OF this] obtain seeds where seeds: "pick seeds ?rest = ys" ..
  from i obtain x xs' where xs: "xs = x # xs'" by (cases xs) auto
  from i have "i mod length xs = i" by simp
  with seeds y have "pick (i # seeds) xs = y # ys"
    unfolding xs by (simp add: Let_def)
  then show ?case ..
qed

lemma visit_effect [simp]: "visit (effect e f) = visit f"
  by (simp add: visit_def effect_def fun_eq_iff)

lemma set_visit [simp]: "set (visit f data) = set data"
  by (simp add: visit_def)

lemma mset_visit: "mset (visit f data) = mset data"
  by (simp add: visit_def mset_pick)

lemma mset_warnings:
  "mset (warnings f data) = mset (map (no_data_warning \<circ> fst) (filter is_nil data))"
  unfolding warnings_def mset_map mset_filter mset_visit ..

subsection \<open>The streaming loop\<close>

lemma range_delete_nil_eq:
  "range_delete_nil es data f =
     (filter (\<lambda>e. (fst e, JNull) \<notin> set es) data,
      f\<lparr>trace := trace f @ map (no_data_warning \<circ> fst) (filter is_nil es)\<rparr>)"
proof (induction es data f rule: range_delete_nil.induct)
  case (1 data f)
  show ?case by simp
next
  case (2 key "value" entries data f)
  have del: "AList.delete key xs = filter (\<lambda>e. fst e \<noteq> key) xs" for xs :: fields
    by (induction xs) auto
  show ?case
  proof (cases "value = JNull")
    case True
    with 2 show ?thesis
      by (auto simp: del no_data_warning_def Log_defs effect_def intro!: filter_cong)
  next
    case False
    with 2 show ?thesis
      by (auto intro!: filter_cong)
  qed
qed

lemma range_delete_nil_visit:
  assumes "distinct (map fst data)"
  shows "range_delete_nil (visit g data) data f =
     (filter non_nil data, f\<lparr>trace := trace f @ warnings g data\<rparr>)"
proof -
  have "(fst e, JNull) \<in> set data \<longleftrightarrow> is_nil e" if e: "e \<in> set data" for e
  proof
    assume "(fst e, JNull) \<in> set data"
    moreover from e have "(fst e, snd e) \<in> set data" by simp
    ultimately have "JNull = snd e" by (rule eq_key_imp_eq_value [OF assms])
    then show "is_nil e" by (simp add: case_prod_beta)
  next
    assume "is_nil e"
    then have "e = (fst e, JNull)" by (cases e) simp
    with e show "(fst e, JNull) \<in> set data" by simp
  qed
  then have "filter (\<lambda>e. (fst e, JNull) \<notin> set (visit g data)) data = filter non_nil data"
    by (intro filter_cong) auto
  then show ?thesis by (simp add: range_delete_nil_eq warnings_def)
qed

lemma object_invariant:
  assumes "object fld ms x = Inr y" and "P x"
    and "\<And>k v a b. P a \<Longrightarrow> fld k v a = Inr b \<Longrightarrow> P b"
  shows "P y"
  using assms(1,2)
proof (induction ms arbitrary: x)
  case Nil
  then show ?case by simp
next
  case (Cons m ms)
  obtain k v where m: "m = (k, v)" by (cases m)
  from Cons.prems(1) obtain z where z: "fld k v x = Inr z" and rest: "object fld ms z = Inr y"
    by (auto simp: m split: sum.splits)
  from assms(3) [OF Cons.prems(2) z] rest show ?case by (rule Cons.IH [rotated])
qed

lemma distinct_fold_update:
  "distinct (map fst m) \<Longrightarrow> distinct (map fst (fold (\<lambda>(k, v). AList.update k v) ms m))"
  by (induction ms arbitrary: m) (auto simp: distinct_update)

lemma store_map_distinct:
  "store_map j m = Inr m' \<Longrightarrow> distinct (map fst m) \<Longrightarrow> distinct (map fst m')"
  by (cases j) (auto simp: distinct_fold_update split: if_splits)

lemma store_Payload_distinct:
  assumes "store_Payload j p = Inr p'" and "distinct_Payload p"
  shows "distinct_Payload p'"
proof (cases j)
  case (JObject ms)
  with assms(1) have "object Payload_field ms p = Inr p'" by simp
  then show ?thesis
    by (rule object_invariant [where P = distinct_Payload, OF _ assms(2)])
       (auto simp: Payload_field_def distinct_Payload_def map_sum_def
             split: if_splits sum.splits dest: store_map_distinct)
qed (use assms in auto)

lemma store_Params_distinct:
  assumes "store_Params j p = Inr p'" and "distinct_Payload (Payload p)"
  shows "distinct_Payload (Payload p')"
proof (cases j)
  case (JObject ms)
  with assms(1) have "object Params_field ms p = Inr p'" by simp
  then show ?thesis
    by (rule object_invariant [where P = "\<lambda>p. distinct_Payload (Payload p)", OF _ assms(2)])
       (auto simp: Params_field_def map_sum_def
             split: if_splits sum.splits dest: store_Payload_distinct)
qed (use assms in auto)

lemma store_Event_distinct:
  assumes "store_Event j ev = Inr ev'" and "distinct_Payload (Payload (EdgRpcParams ev))"
  shows "distinct_Payload (Payload (EdgRpcParams ev'))"
proof (cases j)
  case (JObject ms)
  with assms(1) have "object Event_field ms ev = Inr ev'" by simp
  then show ?thesis
    by (rule object_invariant [where P = "\<lambda>e. distinct_Payload (Payload (EdgRpcParams e))", OF _ assms(2)])
       (auto simp: Event_field_def map_sum_def
             split: if_splits sum.splits dest: store_Params_distinct)
qed (use assms in auto)

lemma Unmarshal_distinct:
  "Unmarshal_DataUpdateEvent msg = Inr ev \<Longrightarrow>
   distinct (map fst (pay_Params (Payload (EdgRpcParams ev))))"
  using store_Event_distinct [of _ _ ev]
  by (auto simp: Unmarshal_DataUpdateEvent_def distinct_Payload_def split: option.splits)

lemma loop_received:
  "conn f = Some c \<Longrightarrow> rd c = Received msg # rs \<Longrightarrow>
   try_handel_msgs_forever f =
     try_handel_msgs_forever
       (handle_message msg (f\<lparr>conn := Some (c\<lparr>rd := rs\<rparr>), trace := trace f @ [Read]\<rparr>))"
  by (subst try_handel_msgs_forever.simps) (simp add: ReadMessage_def effect_def)

lemma loop_read_error:
  "conn f = Some c \<Longrightarrow> rd c = ReadError err # rs \<Longrightarrow>
   try_handel_msgs_forever f =
     (Returns (),
      f\<lparr>conn := Some (c\<lparr>rd := rs\<rparr>),
        trace := trace f @ Read # (if is_stopping f then [] else [Log InfoLevel [S ''read error: '', E err]])\<rparr>)"
  by (subst try_handel_msgs_forever.simps) (simp add: ReadMessage_def effect_def Log_defs)

lemma handle_message_undecodable:
  "Unmarshal_DataUpdateEvent msg = Inl err \<Longrightarrow>
   handle_message msg g =
     g\<lparr>trace := trace g @ [Log InfoLevel [S ''could not parse received data:'', J err],
                          Log InfoLevel [S ''data was:'', S (raw msg)]]\<rparr>"
  by (simp add: handle_message_def Log_defs effect_def)

lemma handle_message_decoded:
  assumes "Unmarshal_DataUpdateEvent msg = Inr dataEv"
  shows "handle_message msg g =
     g\<lparr>ranges := Suc (ranges g),
       trace := trace g @ Log TraceLevel [S ''FEMS RX: '', M (event_data dataEv)]
        # warnings g (event_data dataEv)
        @ [if filter non_nil (event_data dataEv) = []
           then Log WarnLevel [S ''No measurement data!!! Original message was: '', S (raw msg)]
           else AddFields ''fems'' (filter non_nil (event_data dataEv))]\<rparr>"
proof -
  have d: "distinct (map fst (pay_Params (Payload (EdgRpcParams dataEv))))"
    by (rule Unmarshal_distinct [OF assms])
  have v: "visit (Log_Trace a g) = visit g" for a
    by (simp add: Log_defs)
  have w: "warnings (h\<lparr>trace := t\<rparr>) = warnings h" for h :: world and t
    by (simp add: warnings_def visit_def fun_eq_iff)
  show ?thesis
    using assms
    by (simp add: handle_message_def range_order_def event_data_def v
        range_delete_nil_visit [OF d] Log_defs effect_def Let_def w)
qed

lemma loop_trace_extends:
  "\<exists>es. trace (snd (try_handel_msgs_forever g)) = trace g @ es"
  using same_frame_try_handel_msgs_forever [OF same_frame_refl, of g]
  by (auto simp: same_frame_def)

lemma loop_step_trace:
  assumes "try_handel_msgs_forever f = try_handel_msgs_forever g" and "trace g = trace f @ es"
  shows "\<exists>es'. trace (snd (try_handel_msgs_forever f)) = trace f @ es @ es'"
  using loop_trace_extends [of g] assms by auto

lemma is_field_refl [simp]: "is_field name name"
  by (simp add: is_field_def)

lemma fold_names:
  "foldName ''method'' = ''METHOD''" "foldName ''params'' = ''PARAMS''"
  "foldName ''payload'' = ''PAYLOAD''" "foldName ''id'' = ''ID''" "foldName ''error'' = ''ERROR''"
  "foldName ''code'' = ''CODE''" "foldName ''message'' = ''MESSAGE''"
  by (simp_all add: upper_def char_of_def bit_0)

lemmas is_field_eval = is_field_def fold_names upper_def char_of_def bit_0

lemma Unmarshal_push_frame: "Unmarshal_DataUpdateEvent push_frame = Inr push_event"
  by (simp add: Unmarshal_DataUpdateEvent_def push_frame_def push_event_def Event_field_def
      Params_field_def Payload_field_def is_field_eval fits_float64_def)

lemma loop_blocks:
  "conn f = Some c \<Longrightarrow> rd c = [] \<Longrightarrow>
   try_handel_msgs_forever f = (Blocks, f\<lparr>trace := trace f @ [Read]\<rparr>)"
  by (subst try_handel_msgs_forever.simps) (simp add: ReadMessage_def effect_def)

lemma map_of_filter_non_nil:
  assumes "distinct (map fst xs)"
  shows "map_of (filter non_nil xs) k =
     (case map_of xs k of None \<Rightarrow> None | Some v \<Rightarrow> if v = JNull then None else Some v)"
  using assms
proof (induction xs)
  case Nil
  then show ?case by simp
next
  case (Cons x xs)
  obtain k' v' where x: "x = (k', v')" by (cases x)
  from Cons.prems x have notin: "k' \<notin> fst ` set xs" and d: "distinct (map fst xs)" by auto
  show ?case
  proof (cases "k = k'")
    case True
    from notin have "k' \<notin> fst ` set (filter non_nil xs)" by auto
    then have "map_of (filter non_nil xs) k' = None" by (simp add: map_of_eq_None_iff)
    with True x show ?thesis by simp
  next
    case False
    with Cons.IH [OF d] x show ?thesis by simp
  qed
qed

lemma warnings_update [simp]:
  "warnings (f\<lparr>trace := t\<rparr>) = warnings f" "warnings (f\<lparr>conn := c\<rparr>) = warnings f"
  by (simp_all add: warnings_def visit_def fun_eq_iff)

lemma loop_decoded:
  assumes "conn f = Some c" and "rd c = Received msg # rs"
    and "Unmarshal_DataUpdateEvent msg = Inr dataEv"
  shows "try_handel_msgs_forever f =
     try_handel_msgs_forever
       (f\<lparr>conn := Some (c\<lparr>rd := rs\<rparr>), ranges := Suc (ranges f),
          trace := trace f @ [Read, Log TraceLevel [S ''FEMS RX: '', M (event_data dataEv)]]
            @ warnings f (event_data dataEv)
            @ [if filter non_nil (event_data dataEv) = []
               then Log WarnLevel [S ''No measurement data!!! Original message was: '', S (raw msg)]
               else AddFields ''fems'' (filter non_nil (event_data dataEv))]\<rparr>)"
  by (simp add: loop_received [OF assms(1,2)] handle_message_decoded [OF assms(3)])

lemma example_orders:
  "warnings (streaming rs) (event_data push_event) = [no_data_warning ''ch2'']"
  "warnings (streaming rs) (event_data null_event) = [no_data_warning ''ch3'', no_data_warning ''ch2'']"
  "warnings (streaming rs) (event_data falsy_event) = [no_data_warning ''d'']"
  by (simp_all add: warnings_def visit_def streaming_def fems0_def event_data_def push_event_def
      null_event_def falsy_event_def Let_def)

text \<open>
  C1. A received push event whose channel mapping has at least one non-nil value: the
  loop logs the mapping at trace level, warns once for every channel whose value is nil
  (in the order in which the \<open>range\<close> loop visits the channels, which the runtime
  chooses), calls \<open>AddFields\<close> exactly once, with the name "fems" and the mapping without
  its nil entries, and goes on with the next \<open>ReadMessage\<close>; these effects are in the
  trace of the whole run of the loop. Whatever the order, the warnings are one for every
  nil channel. As a mapping, the emitted batch has at every key the value of the event,
  and nothing where the event has nil or no value.
\<close>

theorem push_event_emitted_once:
  assumes "conn f = Some c" and "rd c = Received msg # rs"
    and "Unmarshal_DataUpdateEvent msg = Inr dataEv"
    and "\<exists>(key, value) \<in> set (event_data dataEv). value \<noteq> JNull"
  shows "try_handel_msgs_forever f =
     try_handel_msgs_forever
       (f\<lparr>conn := Some (c\<lparr>rd := rs\<rparr>), ranges := Suc (ranges f),
          trace := trace f @ [Read, Log TraceLevel [S ''FEMS RX: '', M (event_data dataEv)]]
            @ warnings f (event_data dataEv)
            @ [AddFields ''fems'' (filter (\<lambda>(key, value). value \<noteq> JNull) (event_data dataEv))]\<rparr>) \<and>
     (\<exists>es. trace (snd (try_handel_msgs_forever f)) =
        trace f @ ([Read, Log TraceLevel [S ''FEMS RX: '', M (event_data dataEv)]]
          @ warnings f (event_data dataEv)
          @ [AddFields ''fems'' (filter (\<lambda>(key, value). value \<noteq> JNull) (event_data dataEv))])
          @ es) \<and>
     mset (warnings f (event_data dataEv)) =
       mset (map (no_data_warning \<circ> fst)
               (filter (\<lambda>(key, value). value = JNull) (event_data dataEv))) \<and>
     (\<forall>key. map_of (filter (\<lambda>(key, value). value \<noteq> JNull) (event_data dataEv)) key =
        (case map_of (event_data dataEv) key of
           None \<Rightarrow> None
         | Some value \<Rightarrow> if value = JNull then None else Some value))"
proof -
  from assms(4) have "filter non_nil (event_data dataEv) \<noteq> []"
    by (auto simp: filter_empty_conv)
  with loop_decoded [OF assms(1-3)] have step: "try_handel_msgs_forever f =
     try_handel_msgs_forever
       (f\<lparr>conn := Some (c\<lparr>rd := rs\<rparr>), ranges := Suc (ranges f),
          trace := trace f @ [Read, Log TraceLevel [S ''FEMS RX: '', M (event_data dataEv)]]
            @ warnings f (event_data dataEv)
            @ [AddFields ''fems'' (filter non_nil (event_data dataEv))]\<rparr>)"
    by simp
  from loop_step_trace [OF step] have run: "\<exists>es. trace (snd (try_handel_msgs_forever f)) =
        trace f @ ([Read, Log TraceLevel [S ''FEMS RX: '', M (event_data dataEv)]]
          @ warnings f (event_data dataEv)
          @ [AddFields ''fems'' (filter non_nil (event_data dataEv))]) @ es"
    by simp
  from Unmarshal_distinct [OF assms(3)]
  have "distinct (map fst (event_data dataEv))" by (simp add: event_data_def)
  then have "\<forall>key. map_of (filter non_nil (event_data dataEv)) key =
        (case map_of (event_data dataEv) key of
           None \<Rightarrow> None
         | Some value \<Rightarrow> if value = JNull then None else Some value)"
    by (simp add: map_of_filter_non_nil)
  with step run mset_warnings [of f "event_data dataEv"] show ?thesis by blast
qed

theorem push_event_emitted_once_witness:
  "Unmarshal_DataUpdateEvent push_frame = Inr push_event \<and>
   try_handel_msgs_forever (streaming [Received push_frame]) =
     (Blocks,
      (streaming [])\<lparr>ranges := 1, trace :=
        [Read, Log TraceLevel [S ''FEMS RX: '', M [(''ch1'', JNumber (IntLit 42)), (''ch2'', JNull)]],
         no_data_warning ''ch2'', AddFields ''fems'' [(''ch1'', JNumber (IntLit 42))], Read]\<rparr>)"
proof -
  have "conn (streaming [Received push_frame]) = Some \<lparr>wr = [], rd = [Received push_frame]\<rparr>"
    and "rd \<lparr>wr = [], rd = [Received push_frame]\<rparr> = Received push_frame # []"
    and "\<exists>(key, value) \<in> set (event_data push_event). value \<noteq> JNull"
    by (simp_all add: streaming_def event_data_def push_event_def)
  from push_event_emitted_once [OF this(1,2) Unmarshal_push_frame this(3)]
  have "try_handel_msgs_forever (streaming [Received push_frame]) =
     try_handel_msgs_forever
       ((streaming [Received push_frame])\<lparr>conn := Some (\<lparr>wr = [], rd = [Received push_frame]\<rparr>\<lparr>rd := []\<rparr>),
          ranges := Suc (ranges (streaming [Received push_frame])),
          trace := trace (streaming [Received push_frame]) @
            [Read, Log TraceLevel [S ''FEMS RX: '', M (event_data push_event)]]
            @ warnings (streaming [Received push_frame]) (event_data push_event)
            @ [AddFields ''fems'' (filter (\<lambda>(key, value). value \<noteq> JNull) (event_data push_event))]\<rparr>)"
    by (rule conjunct1)
  then show ?thesis
    by (simp add: example_orders Unmarshal_push_frame loop_blocks)
       (simp add: streaming_def fems0_def event_data_def push_event_def)
qed

lemma Unmarshal_null_frame: "Unmarshal_DataUpdateEvent null_frame = Inr null_event"
  by (simp add: Unmarshal_DataUpdateEvent_def null_frame_def null_event_def Event_field_def
      Params_field_def Payload_field_def is_field_eval fits_float64_def)

text \<open>
  C4. A received push event whose channel mapping holds no non-nil value (it is empty, or
  every value is nil): after the trace entry and one warning per channel (in the order
  in which the \<open>range\<close> loop visits them) the loop warns once with the raw message, does
  not call \<open>AddFields\<close>, and goes on with the next \<open>ReadMessage\<close>; these effects are in
  the trace of the whole run of the loop, and they hold no \<open>AddFields\<close>.
\<close>

theorem empty_batch_dropped:
  assumes "conn f = Some c" and "rd c = Received msg # rs"
    and "Unmarshal_DataUpdateEvent msg = Inr dataEv"
    and "\<forall>(key, value) \<in> set (event_data dataEv). value = JNull"
  shows "try_handel_msgs_forever f =
     try_handel_msgs_forever
       (f\<lparr>conn := Some (c\<lparr>rd := rs\<rparr>), ranges := Suc (ranges f),
          trace := trace f @ [Read, Log TraceLevel [S ''FEMS RX: '', M (event_data dataEv)]]
            @ warnings f (event_data dataEv)
            @ [Log WarnLevel [S ''No measurement data!!! Original message was: '', S (raw msg)]]\<rparr>) \<and>
     (\<exists>es. trace (snd (try_handel_msgs_forever f)) =
        trace f @ ([Read, Log TraceLevel [S ''FEMS RX: '', M (event_data dataEv)]]
          @ warnings f (event_data dataEv)
          @ [Log WarnLevel [S ''No measurement data!!! Original message was: '', S (raw msg)]])
          @ es) \<and>
     mset (warnings f (event_data dataEv)) =
       mset (map (no_data_warning \<circ> fst) (event_data dataEv))"
proof -
  from assms(4) have "filter non_nil (event_data dataEv) = []"
    by (auto simp: filter_empty_conv)
  with loop_decoded [OF assms(1-3)] have step: "try_handel_msgs_forever f =
     try_handel_msgs_forever
       (f\<lparr>conn := Some (c\<lparr>rd := rs\<rparr>), ranges := Suc (ranges f),
          trace := trace f @ [Read, Log TraceLevel [S ''FEMS RX: '', M (event_data dataEv)]]
            @ warnings f (event_data dataEv)
            @ [Log WarnLevel [S ''No measurement data!!! Original message was: '', S (raw msg)]]\<rparr>)"
    by simp
  from loop_step_trace [OF step] have run: "\<exists>es. trace (snd (try_handel_msgs_forever f)) =
        trace f @ ([Read, Log TraceLevel [S ''FEMS RX: '', M (event_data dataEv)]]
          @ warnings f (event_data dataEv)
          @ [Log WarnLevel [S ''No measurement data!!! Original message was: '', S (raw msg)]])
          @ es"
    by simp
  from assms(4) have "filter is_nil (event_data dataEv) = event_data dataEv"
    by (auto simp: filter_id_conv)
  with mset_warnings [of f "event_data dataEv"]
  have "mset (warnings f (event_data dataEv)) =
       mset (map (no_data_warning \<circ> fst) (event_data dataEv))"
    by simp
  with step run show ?thesis by blast
qed

theorem empty_batch_dropped_witness:
  "Unmarshal_DataUpdateEvent null_frame = Inr null_event \<and>
   try_handel_msgs_forever (streaming [Received null_frame]) =
     (Blocks,
      (streaming [])\<lparr>ranges := 1, trace :=
        [Read, Log TraceLevel [S ''FEMS RX: '', M [(''ch2'', JNull), (''ch3'', JNull)]],
         no_data_warning ''ch3'', no_data_warning ''ch2'',
         Log WarnLevel [S ''No measurement data!!! Original message was: '', S (raw null_frame)],
         Read]\<rparr>)"
proof -
  have "conn (streaming [Received null_frame]) = Some \<lparr>wr = [], rd = [Received null_frame]\<rparr>"
    and "rd \<lparr>wr = [], rd = [Received null_frame]\<rparr> = Received null_frame # []"
    and "\<forall>(key, value) \<in> set (event_data null_event). value = JNull"
    by (simp_all add: streaming_def event_data_def null_event_def)
  from empty_batch_dropped [OF this(1,2) Unmarshal_null_frame this(3)]
  have "try_handel_msgs_forever (streaming [Received null_frame]) =
     try_handel_msgs_forever
       ((streaming [Received null_frame])\<lparr>conn := Some (\<lparr>wr = [], rd = [Received null_frame]\<rparr>\<lparr>rd := []\<rparr>),
          ranges := Suc (ranges (streaming [Received null_frame])),
          trace := trace (streaming [Received null_frame]) @
            [Read, Log TraceLevel [S ''FEMS RX: '', M (event_data null_event)]]
            @ warnings (streaming [Received null_frame]) (event_data null_event)
            @ [Log WarnLevel [S ''No measurement data!!! Original message was: '', S (raw null_frame)]]\<rparr>)"
    by (rule conjunct1)
  then show ?thesis
    by (simp add: example_orders Unmarshal_null_frame loop_blocks)
       (simp add: streaming_def fems0_def event_data_def null_event_def)
qed



lemma map_of_filter_distinct:
  assumes "distinct (map fst xs)" and "(k, v) \<in> set xs" and "P (k, v)"
  shows "map_of (filter P xs) k = Some v"
proof -
  have "distinct (map fst (filter P xs))" using assms(1) by (rule distinct_map_filter)
  moreover have "(k, v) \<in> set (filter P xs)" using assms(2,3) by simp
  ultimately show ?thesis by (rule map_of_is_SomeI)
qed

lemma Unmarshal_falsy_frame: "Unmarshal_DataUpdateEvent falsy_frame = Inr falsy_event"
  by (simp add: Unmarshal_DataUpdateEvent_def falsy_frame_def falsy_event_def Event_field_def
      Params_field_def Payload_field_def is_field_eval fits_float64_def)

text \<open>
  C9. The filtering removes nil values only. A received push event that carries the
  number 0 (written \<open>0\<close> or with a fraction part), \<open>false\<close> or the empty string for a
  channel is emitted: the loop calls \<open>AddFields\<close> with the entries of the event whose
  value is not nil, and that call is in the trace of the whole run of the loop. The
  emitted batch holds exactly the entries of the event whose value is not nil; that
  channel is in it with its value unchanged.
\<close>

theorem falsy_values_kept:
  assumes "conn f = Some c" and "rd c = Received msg # rs"
    and "Unmarshal_DataUpdateEvent msg = Inr dataEv"
    and "(key, value) \<in> set (event_data dataEv)"
    and "value \<in> {JNumber (IntLit 0), JNumber (FracLit 0), JBool False, JString []}"
  shows "try_handel_msgs_forever f =
       try_handel_msgs_forever
         (f\<lparr>conn := Some (c\<lparr>rd := rs\<rparr>), ranges := Suc (ranges f),
            trace := trace f @ [Read, Log TraceLevel [S ''FEMS RX: '', M (event_data dataEv)]]
              @ warnings f (event_data dataEv)
              @ [AddFields ''fems'' (filter (\<lambda>(key, value). value \<noteq> JNull) (event_data dataEv))]\<rparr>) \<and>
     (\<exists>es. trace (snd (try_handel_msgs_forever f)) =
        trace f @ ([Read, Log TraceLevel [S ''FEMS RX: '', M (event_data dataEv)]]
          @ warnings f (event_data dataEv)
          @ [AddFields ''fems'' (filter (\<lambda>(key, value). value \<noteq> JNull) (event_data dataEv))])
          @ es) \<and>
     set (filter (\<lambda>(key, value). value \<noteq> JNull) (event_data dataEv)) =
       {(k, v). (k, v) \<in> set (event_data dataEv) \<and> v \<noteq> JNull} \<and>
     map_of (filter (\<lambda>(key, value). value \<noteq> JNull) (event_data dataEv)) key = Some value"
proof -
  from assms(5) have v: "value \<noteq> JNull" by auto
  with assms(4) have "filter non_nil (event_data dataEv) \<noteq> []"
    by (auto simp: filter_empty_conv)
  with loop_decoded [OF assms(1-3)] have step: "try_handel_msgs_forever f =
       try_handel_msgs_forever
         (f\<lparr>conn := Some (c\<lparr>rd := rs\<rparr>), ranges := Suc (ranges f),
            trace := trace f @ [Read, Log TraceLevel [S ''FEMS RX: '', M (event_data dataEv)]]
              @ warnings f (event_data dataEv)
              @ [AddFields ''fems'' (filter non_nil (event_data dataEv))]\<rparr>)"
    by simp
  from loop_step_trace [OF step] have run: "\<exists>es. trace (snd (try_handel_msgs_forever f)) =
        trace f @ ([Read, Log TraceLevel [S ''FEMS RX: '', M (event_data dataEv)]]
          @ warnings f (event_data dataEv)
          @ [AddFields ''fems'' (filter non_nil (event_data dataEv))]) @ es"
    by simp
  have s: "set (filter non_nil (event_data dataEv)) =
      {(k, v). (k, v) \<in> set (event_data dataEv) \<and> v \<noteq> JNull}"
    by auto
  from Unmarshal_distinct [OF assms(3)] assms(4) v
  have "map_of (filter non_nil (event_data dataEv)) key = Some value"
    by (intro map_of_filter_distinct) (simp_all add: event_data_def)
  with step run s show ?thesis by blast
qed

theorem falsy_values_kept_witness:
  "Unmarshal_DataUpdateEvent falsy_frame = Inr falsy_event \<and>
   try_handel_msgs_forever (streaming [Received falsy_frame]) =
     (Blocks,
      (streaming [])\<lparr>ranges := 1, trace :=
        [Read, Log TraceLevel [S ''FEMS RX: '', M (event_data falsy_event)],
         no_data_warning ''d'',
         AddFields ''fems'' [(''a'', JNumber (IntLit 0)), (''b'', JBool False), (''c'', JString []),
                            (''e'', JNumber (FracLit 0))],
         Read]\<rparr>) \<and>
   map_of [(''a'', JNumber (IntLit 0)), (''b'', JBool False), (''c'', JString []),
           (''e'', JNumber (FracLit 0))] ''b'' = Some (JBool False)"
proof -
  have "conn (streaming [Received falsy_frame]) = Some \<lparr>wr = [], rd = [Received falsy_frame]\<rparr>"
    and "rd \<lparr>wr = [], rd = [Received falsy_frame]\<rparr> = Received falsy_frame # []"
    and "(''b'', JBool False) \<in> set (event_data falsy_event)"
    and "JBool False \<in> {JNumber (IntLit 0), JNumber (FracLit 0), JBool False, JString []}"
    by (simp_all add: streaming_def event_data_def falsy_event_def)
  from falsy_values_kept [OF this(1,2) Unmarshal_falsy_frame this(3,4)]
  have "try_handel_msgs_forever (streaming [Received falsy_frame]) =
     try_handel_msgs_forever
       ((streaming [Received falsy_frame])\<lparr>conn := Some (\<lparr>wr = [], rd = [Received falsy_frame]\<rparr>\<lparr>rd := []\<rparr>),
          ranges := Suc (ranges (streaming [Received falsy_frame])),
          trace := trace (streaming [Received falsy_frame]) @
            [Read, Log TraceLevel [S ''FEMS RX: '', M (event_data falsy_event)]]
            @ warnings (streaming [Received falsy_frame]) (event_data falsy_event)
            @ [AddFields ''fems'' (filter (\<lambda>(key, value). value \<noteq> JNull) (event_data falsy_event))]\<rparr>)"
    by (rule conjunct1)
  then show ?thesis
    by (simp add: example_orders Unmarshal_falsy_frame loop_blocks)
       (simp add: streaming_def fems0_def event_data_def falsy_event_def)
qed

subsection \<open>Messages that are JSON but no push event\<close>

lemma object_decides:
  assumes "\<And>k v a. (k, v) \<in> set ms \<Longrightarrow>
      (if bad k v then fld k v a = Inl UnmarshalTypeError else \<exists>b. fld k v a = Inr b)"
  shows "if list_ex (\<lambda>(k, v). bad k v) ms then object fld ms x = Inl UnmarshalTypeError
         else \<exists>y. object fld ms x = Inr y"
  using assms
proof (induction ms arbitrary: x)
  case Nil
  then show ?case by simp
next
  case (Cons m ms)
  obtain k v where m: "m = (k, v)" by (cases m)
  have here: "if bad k v then fld k v x = Inl UnmarshalTypeError else \<exists>b. fld k v x = Inr b"
    by (rule Cons.prems) (simp add: m)
  have rest: "if list_ex (\<lambda>(k, v). bad k v) ms then object fld ms y = Inl UnmarshalTypeError
         else \<exists>z. object fld ms y = Inr z" for y
    by (rule Cons.IH) (simp add: Cons.prems)
  show ?case
  proof (cases "bad k v")
    case True
    with here m show ?thesis by simp
  next
    case False
    with here obtain b where b: "fld k v x = Inr b" by auto
    from rest [of b] False b m show ?thesis by (auto split: if_splits)
  qed
qed

lemma object_invariant_members:
  assumes "object fld ms x = Inr y" and "P x"
    and "\<And>k v a b. (k, v) \<in> set ms \<Longrightarrow> P a \<Longrightarrow> fld k v a = Inr b \<Longrightarrow> P b"
  shows "P y"
  using assms
proof (induction ms arbitrary: x)
  case Nil
  then show ?case by simp
next
  case (Cons m ms)
  obtain k v where m: "m = (k, v)" by (cases m)
  from Cons.prems(1) obtain z where z: "fld k v x = Inr z" and rest: "object fld ms z = Inr y"
    by (auto simp: m split: sum.splits)
  have "P z" by (rule Cons.prems(3) [OF _ Cons.prems(2) z]) (simp add: m)
  with rest show ?case by (rule Cons.IH) (auto intro: Cons.prems(3))
qed

lemma store_string_decides:
  "if string_or_null v then \<exists>t. store_string v s = Inr t
   else store_string v s = Inl UnmarshalTypeError"
  by (cases v) (simp_all add: string_or_null_def)

lemma store_map_decides:
  "if channels_conflict v then store_map v m = Inl UnmarshalTypeError
   else \<exists>m'. store_map v m = Inr m'"
  by (cases v) (simp_all add: channels_conflict_def)

lemma Payload_field_decides:
  "if is_field ''params'' k \<and> channels_conflict v
   then Payload_field k v p = Inl UnmarshalTypeError else \<exists>q. Payload_field k v p = Inr q"
  using store_map_decides [of v "pay_Params p"]
  by (auto simp: Payload_field_def split: if_splits)

lemma store_Payload_decides:
  "if payload_conflict v then store_Payload v p = Inl UnmarshalTypeError
   else \<exists>q. store_Payload v p = Inr q"
proof (cases v)
  case (JObject ms)
  from object_decides [where fld = Payload_field and ms = ms and x = p
      and bad = "\<lambda>k x. is_field ''params'' k \<and> channels_conflict x", OF Payload_field_decides]
  show ?thesis by (simp add: JObject payload_conflict_def)
qed (simp_all add: payload_conflict_def)

lemma method_not_payload: "is_field ''method'' k \<Longrightarrow> \<not> is_field ''payload'' k"
  by (auto simp: is_field_eval)

lemma method_not_params: "is_field ''method'' k \<Longrightarrow> \<not> is_field ''params'' k"
  by (auto simp: is_field_eval)

lemma Params_field_decides:
  "if is_field ''method'' k \<and> \<not> string_or_null v \<or> is_field ''payload'' k \<and> payload_conflict v
   then Params_field k v p = Inl UnmarshalTypeError else \<exists>q. Params_field k v p = Inr q"
  using store_string_decides [of v "par_Method p"] store_Payload_decides [of v "Payload p"]
    method_not_payload [of k]
  by (auto simp: Params_field_def split: if_splits)

lemma store_Params_decides:
  "if params_conflict v then store_Params v p = Inl UnmarshalTypeError
   else \<exists>q. store_Params v p = Inr q"
proof (cases v)
  case (JObject ms)
  from object_decides [where fld = Params_field and ms = ms and x = p
      and bad = "\<lambda>k x. is_field ''method'' k \<and> \<not> string_or_null x \<or>
                       is_field ''payload'' k \<and> payload_conflict x", OF Params_field_decides]
  show ?thesis by (simp add: JObject params_conflict_def)
qed (simp_all add: params_conflict_def)

lemma Event_field_decides:
  "if is_field ''method'' k \<and> \<not> string_or_null v \<or> is_field ''params'' k \<and> params_conflict v
   then Event_field k v ev = Inl UnmarshalTypeError else \<exists>q. Event_field k v ev = Inr q"
  using store_string_decides [of v "ev_Method ev"] store_Params_decides [of v "EdgRpcParams ev"]
    method_not_params [of k]
  by (auto simp: Event_field_def split: if_splits)

lemma store_Event_decides:
  "if event_conflict j then store_Event j ev = Inl UnmarshalTypeError
   else \<exists>q. store_Event j ev = Inr q"
proof (cases j)
  case (JObject ms)
  from object_decides [where fld = Event_field and ms = ms and x = ev
      and bad = "\<lambda>k x. is_field ''method'' k \<and> \<not> string_or_null x \<or>
                       is_field ''params'' k \<and> params_conflict x", OF Event_field_decides]
  show ?thesis by (simp add: JObject event_conflict_def)
qed (simp_all add: event_conflict_def)

lemma Unmarshal_decides:
  assumes "tree msg = Some j"
  shows "if event_conflict j then Unmarshal_DataUpdateEvent msg = Inl UnmarshalTypeError
         else \<exists>dataEv. Unmarshal_DataUpdateEvent msg = Inr dataEv"
  using store_Event_decides [of j] assms by (simp add: Unmarshal_DataUpdateEvent_def)

lemma store_map_left_empty:
  "channels_left_empty v \<Longrightarrow> store_map v [] = Inr m \<Longrightarrow> m = []"
  by (cases v) (auto simp: channels_left_empty_def)

lemma store_Payload_left_empty:
  assumes "payload_left_empty v" and "pay_Params p = []" and "store_Payload v p = Inr q"
  shows "pay_Params q = []"
proof (cases v)
  case (JObject ms)
  with assms(3) have "object Payload_field ms p = Inr q" by simp
  then show ?thesis
  proof (rule object_invariant_members [where P = "\<lambda>p. pay_Params p = []", OF _ assms(2)])
    fix k x a b
    assume "(k, x) \<in> set ms" and "pay_Params a = []" and "Payload_field k x a = Inr b"
    moreover from assms(1) JObject \<open>(k, x) \<in> set ms\<close>
    have "is_field ''params'' k \<longrightarrow> channels_left_empty x"
      by (auto simp: payload_left_empty_def list_all_iff)
    ultimately show "pay_Params b = []"
      by (auto simp: Payload_field_def map_sum_def split: if_splits sum.splits
          dest: store_map_left_empty)
  qed
qed (use assms in \<open>auto simp: payload_left_empty_def\<close>)

lemma store_Params_left_empty:
  assumes "params_left_empty v" and "pay_Params (Payload p) = []" and "store_Params v p = Inr q"
  shows "pay_Params (Payload q) = []"
proof (cases v)
  case (JObject ms)
  with assms(3) have "object Params_field ms p = Inr q" by simp
  then show ?thesis
  proof (rule object_invariant_members [where P = "\<lambda>p. pay_Params (Payload p) = []", OF _ assms(2)])
    fix k x a b
    assume "(k, x) \<in> set ms" and "pay_Params (Payload a) = []" and "Params_field k x a = Inr b"
    moreover from assms(1) JObject \<open>(k, x) \<in> set ms\<close>
    have "is_field ''payload'' k \<longrightarrow> payload_left_empty x"
      by (auto simp: params_left_empty_def list_all_iff)
    ultimately show "pay_Params (Payload b) = []"
      by (auto simp: Params_field_def map_sum_def split: if_splits sum.splits
          dest: store_Payload_left_empty)
  qed
qed (use assms in \<open>auto simp: params_left_empty_def\<close>)

lemma store_Event_left_empty:
  assumes "event_left_empty j" and "event_data ev = []" and "store_Event j ev = Inr q"
  shows "event_data q = []"
proof (cases j)
  case (JObject ms)
  with assms(3) have "object Event_field ms ev = Inr q" by simp
  then show ?thesis
  proof (rule object_invariant_members [where P = "\<lambda>e. event_data e = []", OF _ assms(2)])
    fix k x a b
    assume "(k, x) \<in> set ms" and "event_data a = []" and "Event_field k x a = Inr b"
    moreover from assms(1) JObject \<open>(k, x) \<in> set ms\<close>
    have "is_field ''params'' k \<longrightarrow> params_left_empty x"
      by (auto simp: event_left_empty_def list_all_iff)
    ultimately show "event_data b = []"
      by (auto simp: Event_field_def event_data_def map_sum_def split: if_splits sum.splits
          dest: store_Params_left_empty)
  qed
qed (use assms in \<open>auto simp: event_left_empty_def\<close>)

lemma left_empty_no_conflict:
  "channels_left_empty v \<Longrightarrow> \<not> channels_conflict v"
  "payload_left_empty v \<Longrightarrow> \<not> payload_conflict v"
  "params_left_empty v \<Longrightarrow> \<not> params_conflict v"
  "event_left_empty v \<Longrightarrow> \<not> event_conflict v"
proof -
  show 1: "channels_left_empty v \<Longrightarrow> \<not> channels_conflict v" for v
    by (cases v) (auto simp: channels_left_empty_def channels_conflict_def)
  show 2: "payload_left_empty v \<Longrightarrow> \<not> payload_conflict v" for v
    by (cases v) (auto simp: payload_left_empty_def payload_conflict_def list_all_iff list_ex_iff
        dest: 1)
  show 3: "params_left_empty v \<Longrightarrow> \<not> params_conflict v" for v
    by (cases v) (auto simp: params_left_empty_def params_conflict_def list_all_iff list_ex_iff
        dest: 2)
  show "event_left_empty v \<Longrightarrow> \<not> event_conflict v"
    by (cases v) (auto simp: event_left_empty_def event_conflict_def list_all_iff list_ex_iff
        dest: 3)
qed

lemma Unmarshal_left_empty:
  assumes "tree msg = Some j" and "event_left_empty j"
  shows "\<exists>dataEv. Unmarshal_DataUpdateEvent msg = Inr dataEv \<and> event_data dataEv = []"
proof -
  from Unmarshal_decides [OF assms(1)] left_empty_no_conflict(4) [OF assms(2)]
  obtain dataEv where d: "Unmarshal_DataUpdateEvent msg = Inr dataEv" by auto
  with assms(1) have "store_Event j zero_event = Inr dataEv"
    by (simp add: Unmarshal_DataUpdateEvent_def zero_event_def)
  then have "event_data dataEv = []"
    by (rule store_Event_left_empty [OF assms(2), rotated]) (simp add: event_data_def zero_event_def)
  with d show ?thesis by blast
qed

lemma warnings_Nil [simp]: "warnings f [] = []"
  by (simp add: warnings_def visit_def)

text \<open>
  C10, as claimed, fails: the message \<open>{"method":5}\<close> is valid JSON whose \<open>method\<close>
  field has another shape than \<open>DataUpdateEvent\<close> declares; \<open>json.Unmarshal\<close> returns a
  type error for it, and the loop takes the decode-failure branch, not the empty-batch
  branch.
\<close>

theorem mistyped_message_is_decode_failure:
  "tree mistyped_frame = Some (JObject [(''method'', JNumber (IntLit 5))]) \<and>
   Unmarshal_DataUpdateEvent mistyped_frame = Inl UnmarshalTypeError \<and>
   try_handel_msgs_forever (streaming [Received mistyped_frame]) =
     (Blocks,
      (streaming [])\<lparr>trace :=
        [Read, Log InfoLevel [S ''could not parse received data:'', J UnmarshalTypeError],
         Log InfoLevel [S ''data was:'', S (raw mistyped_frame)], Read]\<rparr>)"
proof -
  have u: "Unmarshal_DataUpdateEvent mistyped_frame = Inl UnmarshalTypeError"
    by (simp add: Unmarshal_DataUpdateEvent_def mistyped_frame_def Event_field_def)
  then show ?thesis
    by (simp add: streaming_def fems0_def loop_received handle_message_undecodable loop_blocks)
       (simp add: mistyped_frame_def)
qed

text \<open>
  C10, amended. For a received message that is valid JSON. When its fields are missing,
  \<open>null\<close> or of the declared kind at every level and its channel mapping is missing,
  \<open>null\<close> or empty, decoding succeeds and the loop logs the "no measurement data" warning
  with the raw message, emits nothing and goes on. When a field that is present has
  another kind than the struct declares, at any level, decoding fails with a type error
  and the loop logs the error and the raw message, emits nothing and goes on. In both
  cases these effects are in the trace of the whole run of the loop. A valid JSON
  message is a decode failure in exactly the second case, and the two cases exclude each
  other.
\<close>

theorem unshaped_message_never_emits:
  assumes "conn f = Some c" and "rd c = Received msg # rs" and "tree msg = Some j"
  shows
    "(event_left_empty j \<longrightarrow>
        try_handel_msgs_forever f =
          try_handel_msgs_forever
            (f\<lparr>conn := Some (c\<lparr>rd := rs\<rparr>), ranges := Suc (ranges f),
               trace := trace f @ [Read, Log TraceLevel [S ''FEMS RX: '', M []],
                 Log WarnLevel [S ''No measurement data!!! Original message was: '', S (raw msg)]]\<rparr>) \<and>
        (\<exists>es. trace (snd (try_handel_msgs_forever f)) =
           trace f @ [Read, Log TraceLevel [S ''FEMS RX: '', M []],
             Log WarnLevel [S ''No measurement data!!! Original message was: '', S (raw msg)]] @ es)) \<and>
     (event_conflict j \<longrightarrow>
        try_handel_msgs_forever f =
          try_handel_msgs_forever
            (f\<lparr>conn := Some (c\<lparr>rd := rs\<rparr>),
               trace := trace f @ [Read,
                 Log InfoLevel [S ''could not parse received data:'', J UnmarshalTypeError],
                 Log InfoLevel [S ''data was:'', S (raw msg)]]\<rparr>) \<and>
        (\<exists>es. trace (snd (try_handel_msgs_forever f)) =
           trace f @ [Read,
             Log InfoLevel [S ''could not parse received data:'', J UnmarshalTypeError],
             Log InfoLevel [S ''data was:'', S (raw msg)]] @ es)) \<and>
     (Unmarshal_DataUpdateEvent msg = Inl UnmarshalTypeError \<longleftrightarrow> event_conflict j) \<and>
     (\<forall>err. Unmarshal_DataUpdateEvent msg = Inl err \<longrightarrow> event_conflict j) \<and>
     \<not> (event_left_empty j \<and> event_conflict j)"
proof (intro conjI impI allI)
  assume e: "event_left_empty j"
  from Unmarshal_left_empty [OF assms(3) e] obtain dataEv
    where d: "Unmarshal_DataUpdateEvent msg = Inr dataEv" and n: "event_data dataEv = []"
    by blast
  from loop_decoded [OF assms(1,2) d] n
  show step: "try_handel_msgs_forever f =
          try_handel_msgs_forever
            (f\<lparr>conn := Some (c\<lparr>rd := rs\<rparr>), ranges := Suc (ranges f),
               trace := trace f @ [Read, Log TraceLevel [S ''FEMS RX: '', M []],
                 Log WarnLevel [S ''No measurement data!!! Original message was: '', S (raw msg)]]\<rparr>)"
    by simp
  from loop_step_trace [OF step]
  show "\<exists>es. trace (snd (try_handel_msgs_forever f)) =
           trace f @ [Read, Log TraceLevel [S ''FEMS RX: '', M []],
             Log WarnLevel [S ''No measurement data!!! Original message was: '', S (raw msg)]] @ es"
    by simp
next
  assume "event_conflict j"
  with Unmarshal_decides [OF assms(3)]
  have u: "Unmarshal_DataUpdateEvent msg = Inl UnmarshalTypeError" by simp
  then show step: "try_handel_msgs_forever f =
          try_handel_msgs_forever
            (f\<lparr>conn := Some (c\<lparr>rd := rs\<rparr>),
               trace := trace f @ [Read,
                 Log InfoLevel [S ''could not parse received data:'', J UnmarshalTypeError],
                 Log InfoLevel [S ''data was:'', S (raw msg)]]\<rparr>)"
    by (simp add: loop_received [OF assms(1,2)] handle_message_undecodable)
  from loop_step_trace [OF step]
  show "\<exists>es. trace (snd (try_handel_msgs_forever f)) =
           trace f @ [Read,
             Log InfoLevel [S ''could not parse received data:'', J UnmarshalTypeError],
             Log InfoLevel [S ''data was:'', S (raw msg)]] @ es"
    by simp
next
  show "Unmarshal_DataUpdateEvent msg = Inl UnmarshalTypeError \<longleftrightarrow> event_conflict j"
    using Unmarshal_decides [OF assms(3)] by (auto split: if_splits)
next
  fix err
  assume "Unmarshal_DataUpdateEvent msg = Inl err"
  then show "event_conflict j"
    using Unmarshal_decides [OF assms(3)] by (auto split: if_splits)
next
  show "\<not> (event_left_empty j \<and> event_conflict j)"
    using left_empty_no_conflict(4) [of j] by blast
qed

lemma example_shapes:
  "event_left_empty (JObject [(''method'', JNull), (''params'', JObject [(''payload'', JNull)])])"
  "event_conflict (JObject [(''params'', JObject [(''payload'', JObject [(''params'', JArray [])])])])"
  "event_left_empty (JObject [(''jsonrpc'', JString ''2.0''), (''id'', JString ''7''), (''result'', JObject [])])"
  "event_conflict (JObject [(''method'', JNumber (IntLit 5))])"
  by (simp_all add: event_left_empty_def event_conflict_def params_left_empty_def
      params_conflict_def payload_left_empty_def payload_conflict_def channels_conflict_def
      string_or_null_def is_field_eval)

theorem unshaped_message_never_emits_witness:
  "event_left_empty (JObject [(''method'', JNull), (''params'', JObject [(''payload'', JNull)])]) \<and>
   event_conflict (JObject [(''params'', JObject [(''payload'', JObject [(''params'', JArray [])])])]) \<and>
   try_handel_msgs_forever (streaming [Received null_payload_frame, Received array_channels_frame]) =
     (Blocks,
      (streaming [])\<lparr>ranges := 1, trace :=
        [Read, Log TraceLevel [S ''FEMS RX: '', M []],
         Log WarnLevel [S ''No measurement data!!! Original message was: '',
                        S (raw null_payload_frame)],
         Read, Log InfoLevel [S ''could not parse received data:'', J UnmarshalTypeError],
         Log InfoLevel [S ''data was:'', S (raw array_channels_frame)], Read]\<rparr>)"
proof -
  let ?f = "streaming [Received null_payload_frame, Received array_channels_frame]"
  have 1: "conn ?f = Some \<lparr>wr = [], rd = [Received null_payload_frame, Received array_channels_frame]\<rparr>"
    and 2: "rd \<lparr>wr = [], rd = [Received null_payload_frame, Received array_channels_frame]\<rparr> =
      Received null_payload_frame # [Received array_channels_frame]"
    and 3: "tree null_payload_frame =
      Some (JObject [(''method'', JNull), (''params'', JObject [(''payload'', JNull)])])"
    by (simp_all add: streaming_def null_payload_frame_def)
  from unshaped_message_never_emits [OF 1 2 3] example_shapes(1)
  have "try_handel_msgs_forever ?f =
          try_handel_msgs_forever
            (?f\<lparr>conn := Some (\<lparr>wr = [], rd = [Received null_payload_frame, Received array_channels_frame]\<rparr>
                     \<lparr>rd := [Received array_channels_frame]\<rparr>), ranges := Suc (ranges ?f),
               trace := trace ?f @ [Read, Log TraceLevel [S ''FEMS RX: '', M []],
                 Log WarnLevel [S ''No measurement data!!! Original message was: '',
                                S (raw null_payload_frame)]]\<rparr>)"
    by blast
  then have step1: "try_handel_msgs_forever ?f =
     try_handel_msgs_forever
       ((streaming [Received array_channels_frame])\<lparr>ranges := 1, trace :=
          [Read, Log TraceLevel [S ''FEMS RX: '', M []],
           Log WarnLevel [S ''No measurement data!!! Original message was: '',
                          S (raw null_payload_frame)]]\<rparr>)"
    by (simp add: streaming_def fems0_def)
  let ?g = "(streaming [Received array_channels_frame])\<lparr>ranges := 1, trace :=
          [Read, Log TraceLevel [S ''FEMS RX: '', M []],
           Log WarnLevel [S ''No measurement data!!! Original message was: '',
                          S (raw null_payload_frame)]]\<rparr>"
  have 4: "conn ?g = Some \<lparr>wr = [], rd = [Received array_channels_frame]\<rparr>"
    and 5: "rd \<lparr>wr = [], rd = [Received array_channels_frame]\<rparr> = Received array_channels_frame # []"
    and 6: "tree array_channels_frame =
      Some (JObject [(''params'', JObject [(''payload'', JObject [(''params'', JArray [])])])])"
    by (simp_all add: streaming_def array_channels_frame_def)
  from unshaped_message_never_emits [OF 4 5 6] example_shapes(2)
  have "try_handel_msgs_forever ?g =
          try_handel_msgs_forever
            (?g\<lparr>conn := Some (\<lparr>wr = [], rd = [Received array_channels_frame]\<rparr>\<lparr>rd := []\<rparr>),
               trace := trace ?g @ [Read,
                 Log InfoLevel [S ''could not parse received data:'', J UnmarshalTypeError],
                 Log InfoLevel [S ''data was:'', S (raw array_channels_frame)]]\<rparr>)"
    by blast
  then have step2: "try_handel_msgs_forever ?g =
     try_handel_msgs_forever
       ((streaming [])\<lparr>ranges := 1, trace :=
          [Read, Log TraceLevel [S ''FEMS RX: '', M []],
           Log WarnLevel [S ''No measurement data!!! Original message was: '',
                          S (raw null_payload_frame)],
           Read, Log InfoLevel [S ''could not parse received data:'', J UnmarshalTypeError],
           Log InfoLevel [S ''data was:'', S (raw array_channels_frame)]]\<rparr>)"
    by (simp add: streaming_def fems0_def)
  show ?thesis
    unfolding step1 step2 using example_shapes(1,2)
    by (simp add: streaming_def fems0_def loop_blocks)
qed

subsection \<open>try_login\<close>

lemmas call_defs = WriteJSON_def ReadMessage_def getRequest_def with_Params_def effect_def Log_defs

lemma try_login_blocked_write:
  "conn f = Some c \<Longrightarrow> wr c = [] \<Longrightarrow> fst (try_login f) = Blocks"
  by (simp add: try_login_def call_defs)

lemma try_login_write_error:
  "conn f = Some c \<Longrightarrow> wr c = Some e # ws \<Longrightarrow>
   try_login f = (Returns False,
     f\<lparr>conn := Some (c\<lparr>wr := ws\<rparr>), uuids := Suc (uuids f),
       trace := trace f @ [Log TraceLevel [S ''sending login request''], Write (login_request f),
                           Log ErrorLevel [S ''write:'', E e]]\<rparr>)"
  by (simp add: try_login_def call_defs login_request_def)

lemma try_login_blocked_read:
  "conn f = Some c \<Longrightarrow> wr c = None # ws \<Longrightarrow> rd c = [] \<Longrightarrow> fst (try_login f) = Blocks"
  by (simp add: try_login_def call_defs)

lemma try_login_read_error:
  "conn f = Some c \<Longrightarrow> wr c = None # ws \<Longrightarrow> rd c = ReadError e # rs \<Longrightarrow>
   try_login f = (Returns False,
     f\<lparr>conn := Some (c\<lparr>wr := ws, rd := rs\<rparr>), uuids := Suc (uuids f),
       trace := trace f @ [Log TraceLevel [S ''sending login request''], Write (login_request f), Read,
                           Log InfoLevel [S ''read login response:'', E e]]\<rparr>)"
  by (simp add: try_login_def call_defs login_request_def)

lemma try_login_received:
  "conn f = Some c \<Longrightarrow> wr c = None # ws \<Longrightarrow> rd c = Received msg # rs \<Longrightarrow>
   try_login f =
     (let g = f\<lparr>conn := Some (c\<lparr>wr := ws, rd := rs\<rparr>), uuids := Suc (uuids f),
                trace := trace f @ [Log TraceLevel [S ''sending login request''],
                                    Write (login_request f), Read]\<rparr>
      in case Unmarshal_RpcResponse msg of
           Inl err \<Rightarrow> (Returns False,
             g\<lparr>trace := trace g @ [Log InfoLevel [S ''could not parse login response:'', J err],
                                  Log InfoLevel [S ''data was:'', S (raw msg)]]\<rparr>)
         | Inr resp \<Rightarrow>
             if resp_Id resp \<noteq> uuid f (uuids f)
             then (Returns False,
                   g\<lparr>trace := trace g @ [Log ErrorLevel [S ''unexpected response id: '', R resp]]\<rparr>)
             else (case resp_Error resp of
                     Some er \<Rightarrow> (Returns False,
                       g\<lparr>trace := trace g @ [Log TraceLevel [S ''got login response''],
                          Log ErrorLevel [S ''Login failed: '', N (Code er), S '' - '', S (Message er)]]\<rparr>)
                   | None \<Rightarrow> (Returns True,
                       g\<lparr>trace := trace g @ [Log TraceLevel [S ''got login response''],
                          Log InfoLevel [S ''login succeeded'']]\<rparr>)))"
  by (simp add: try_login_def call_defs login_request_def Let_def split: sum.splits option.splits)

lemma list_cases3:
  obtains "xs = []" | e ys where "xs = Some e # ys" | ys where "xs = None # ys"
proof (cases xs)
  case Nil
  then show ?thesis by (rule that(1))
next
  case (Cons x ys)
  then show ?thesis by (cases x) (auto intro: that)
qed

lemma recv_cases3:
  obtains "rs = []" | e ys where "rs = ReadError e # ys" | m ys where "rs = Received m # ys"
proof (cases rs)
  case Nil
  then show ?thesis by (rule that(1))
next
  case (Cons x ys)
  then show ?thesis by (cases x) (auto intro: that)
qed

lemma Unmarshal_accepted:
  "Unmarshal_RpcResponse (accepted i) = Inr \<lparr>resp_Id = i, resp_Error = None\<rparr>"
  by (simp add: Unmarshal_RpcResponse_def accepted_def RpcResponse_field_def is_field_eval)

lemma Unmarshal_denied:
  "Unmarshal_RpcResponse (denied i) =
     Inr \<lparr>resp_Id = i, resp_Error = Some \<lparr>Code = 1, Message = ''bad password''\<rparr>\<rparr>"
  by (simp add: Unmarshal_RpcResponse_def denied_def RpcResponse_field_def ErrorMsg_field_def
      is_field_eval)

text \<open>
  C2. On a plugin that holds a connection, \<open>try_login\<close> returns true exactly when the
  write succeeds, one message is read, the message decodes to a response whose id is the
  id of the request (the string the uuid generator has just returned) and whose error is
  nil; it has then written that request and read exactly that one message. It returns
  false, and does not panic, when the write fails, when the read fails, when the message
  is not valid JSON, when the response id differs from the request id, and when the
  response carries an error.
\<close>

theorem try_login_result:
  assumes "conn f = Some c"
  shows
    "(fst (try_login f) = Returns True \<longleftrightarrow>
        (\<exists>ws msg rs resp. wr c = None # ws \<and> rd c = Received msg # rs \<and>
           Unmarshal_RpcResponse msg = Inr resp \<and>
           resp_Id resp = req_Id (login_request f) \<and> resp_Error resp = None)) \<and>
     req_Id (login_request f) = uuid f (uuids f) \<and>
     (\<forall>ws msg rs. fst (try_login f) = Returns True \<and> wr c = None # ws \<and> rd c = Received msg # rs \<longrightarrow>
        snd (try_login f) =
          f\<lparr>conn := Some (c\<lparr>wr := ws, rd := rs\<rparr>), uuids := Suc (uuids f),
            trace := trace f @
              [Log TraceLevel [S ''sending login request''], Write (login_request f), Read,
               Log TraceLevel [S ''got login response''], Log InfoLevel [S ''login succeeded'']]\<rparr>) \<and>
     (\<forall>e ws. wr c = Some e # ws \<longrightarrow> fst (try_login f) = Returns False) \<and>
     (\<forall>ws e rs. wr c = None # ws \<and> rd c = ReadError e # rs \<longrightarrow> fst (try_login f) = Returns False) \<and>
     (\<forall>ws msg rs. wr c = None # ws \<and> rd c = Received msg # rs \<and> tree msg = None \<longrightarrow>
        fst (try_login f) = Returns False) \<and>
     (\<forall>ws msg rs resp. wr c = None # ws \<and> rd c = Received msg # rs \<and>
        Unmarshal_RpcResponse msg = Inr resp \<and> resp_Id resp \<noteq> req_Id (login_request f) \<longrightarrow>
        fst (try_login f) = Returns False) \<and>
     (\<forall>ws msg rs resp er. wr c = None # ws \<and> rd c = Received msg # rs \<and>
        Unmarshal_RpcResponse msg = Inr resp \<and> resp_Error resp = Some er \<longrightarrow>
        fst (try_login f) = Returns False)"
proof -
  have id: "req_Id (login_request f) = uuid f (uuids f)"
    by (simp add: login_request_def)
  have iff: "fst (try_login f) = Returns True \<longleftrightarrow>
        (\<exists>ws msg rs resp. wr c = None # ws \<and> rd c = Received msg # rs \<and>
           Unmarshal_RpcResponse msg = Inr resp \<and>
           resp_Id resp = req_Id (login_request f) \<and> resp_Error resp = None)"
  proof (cases "wr c" rule: list_cases3)
    case 1
    with assms show ?thesis by (simp add: try_login_blocked_write)
  next
    case (2 e ws)
    with assms show ?thesis by (simp add: try_login_write_error)
  next
    case (3 ws)
    show ?thesis
    proof (cases "rd c" rule: recv_cases3)
      case 1
      with assms 3 show ?thesis by (simp add: try_login_blocked_read)
    next
      case (2 e rs)
      with assms 3 show ?thesis by (simp add: try_login_read_error)
    next
      case (3 msg rs)
      with assms \<open>wr c = None # ws\<close> show ?thesis
        by (auto simp: try_login_received id Let_def split: sum.splits option.splits)
    qed
  qed
  show ?thesis
    using assms
    by (intro conjI allI impI iff id)
       (auto simp: try_login_write_error try_login_read_error try_login_received id Let_def
          Unmarshal_RpcResponse_def split: sum.splits option.splits)
qed

theorem try_login_result_witness:
  "fst (try_login (logging_in [Received (accepted ''uuid-'')])) = Returns True \<and>
   fst (try_login (logging_in [Received (accepted [])])) = Returns False \<and>
   fst (try_login (logging_in [Received (denied ''uuid-'')])) = Returns False \<and>
   fst (try_login (logging_in [Received garbled_frame])) = Returns False \<and>
   fst (try_login (logging_in [ReadError ''EOF''])) = Returns False \<and>
   fst (try_login (fems0\<lparr>conn := Some \<lparr>wr = [Some ''broken pipe''], rd = []\<rparr>\<rparr>)) = Returns False"
proof -
  have c: "conn (logging_in rs) = Some \<lparr>wr = [None, None], rd = rs\<rparr>" for rs
    by (simp add: logging_in_def)
  have i: "req_Id (login_request (logging_in rs)) = ''uuid-''" for rs
    by (simp add: login_request_def logging_in_def fems0_def uuid0_def)
  have g: "tree garbled_frame = None" by (simp add: garbled_frame_def)
  have 1: "fst (try_login (logging_in [Received (accepted ''uuid-'')])) = Returns True"
    using try_login_result [OF c [of "[Received (accepted ''uuid-'')]"]]
    by (simp add: Unmarshal_accepted i)
  have 2: "fst (try_login (logging_in [Received (accepted [])])) = Returns False"
    using try_login_result [OF c [of "[Received (accepted [])]"]]
    by (simp add: Unmarshal_accepted i)
  have 3: "fst (try_login (logging_in [Received (denied ''uuid-'')])) = Returns False"
    using try_login_result [OF c [of "[Received (denied ''uuid-'')]"]]
    by (simp add: Unmarshal_denied i)
  have 4: "fst (try_login (logging_in [Received garbled_frame])) = Returns False"
    using try_login_result [OF c [of "[Received garbled_frame]"]] g
    by simp
  have 5: "fst (try_login (logging_in [ReadError ''EOF''])) = Returns False"
    using try_login_result [OF c [of "[ReadError ''EOF'']"]]
    by simp
  have 6: "fst (try_login (fems0\<lparr>conn := Some \<lparr>wr = [Some ''broken pipe''], rd = []\<rparr>\<rparr>)) = Returns False"
    using try_login_result [of "fems0\<lparr>conn := Some \<lparr>wr = [Some ''broken pipe''], rd = []\<rparr>\<rparr>"
        "\<lparr>wr = [Some ''broken pipe''], rd = []\<rparr>"]
    by simp
  from 1 2 3 4 5 6 show ?thesis by simp
qed

subsection \<open>try_subscribe_channels\<close>

lemma get_subscribe_channels_request_eq:
  "get_subscribe_channels_request f =
     (RpcReq ''2.0'' ''edgeRpc'' (uuid f (uuids f))
        (ParamMap [(''edgeId'', VString ''0''),
           (''payload'', VReq (RpcReq ''2.0'' ''subscribeChannels'' (uuid f (Suc (uuids f)))
              (ParamMap [(''count'', VInt 0), (''channels'', VStrings (Channels f))])))]),
      f\<lparr>uuids := Suc (Suc (uuids f))\<rparr>)"
  by (simp add: get_subscribe_channels_request_def getRequest_def with_Params_def)

lemma req_Id_subscribe_request [simp]: "req_Id (subscribe_request f) = uuid f (uuids f)"
  by (simp add: subscribe_request_def get_subscribe_channels_request_eq)

lemma try_subscribe_blocked_write:
  "conn f = Some c \<Longrightarrow> wr c = [] \<Longrightarrow>
   try_subscribe_channels f =
     (Blocks, f\<lparr>uuids := Suc (Suc (uuids f)), trace := trace f @ [Write (subscribe_request f)]\<rparr>)"
  by (simp add: try_subscribe_channels_def subscribe_request_def get_subscribe_channels_request_eq
      WriteJSON_def effect_def)

lemma try_subscribe_write_error:
  "conn f = Some c \<Longrightarrow> wr c = Some e # ws \<Longrightarrow>
   try_subscribe_channels f = (Returns False,
     f\<lparr>conn := Some (c\<lparr>wr := ws\<rparr>), uuids := Suc (Suc (uuids f)),
       trace := trace f @ [Write (subscribe_request f),
                           Log ErrorLevel [S ''failed to send subscribe channels:'', E e]]\<rparr>)"
  by (simp add: try_subscribe_channels_def subscribe_request_def get_subscribe_channels_request_eq
      WriteJSON_def effect_def Log_defs)

lemma try_subscribe_blocked_read:
  "conn f = Some c \<Longrightarrow> wr c = None # ws \<Longrightarrow> rd c = [] \<Longrightarrow>
   try_subscribe_channels f =
     (Blocks, f\<lparr>conn := Some (c\<lparr>wr := ws\<rparr>), uuids := Suc (Suc (uuids f)),
                 trace := trace f @ [Write (subscribe_request f), Read]\<rparr>)"
  by (simp add: try_subscribe_channels_def subscribe_request_def get_subscribe_channels_request_eq
      WriteJSON_def ReadMessage_def effect_def)

lemma try_subscribe_read_error:
  "conn f = Some c \<Longrightarrow> wr c = None # ws \<Longrightarrow> rd c = ReadError e # rs \<Longrightarrow>
   try_subscribe_channels f = (Returns False,
     f\<lparr>conn := Some (c\<lparr>wr := ws, rd := rs\<rparr>), uuids := Suc (Suc (uuids f)),
       trace := trace f @ [Write (subscribe_request f), Read,
                           Log InfoLevel [S ''read subscribe response:'', E e]]\<rparr>)"
  by (simp add: try_subscribe_channels_def subscribe_request_def get_subscribe_channels_request_eq
      WriteJSON_def ReadMessage_def effect_def Log_defs)

lemma try_subscribe_received:
  "conn f = Some c \<Longrightarrow> wr c = None # ws \<Longrightarrow> rd c = Received msg # rs \<Longrightarrow>
   try_subscribe_channels f =
     (let g = f\<lparr>conn := Some (c\<lparr>wr := ws, rd := rs\<rparr>), uuids := Suc (Suc (uuids f)),
                trace := trace f @ [Write (subscribe_request f), Read]\<rparr>
      in case Unmarshal_RpcResponse msg of
           Inl err \<Rightarrow> (Returns False,
             g\<lparr>trace := trace g @ [Log InfoLevel [S ''could not parse subscribe response:'', J err],
                                  Log InfoLevel [S ''data was:'', S (raw msg)]]\<rparr>)
         | Inr resp \<Rightarrow>
             if resp_Id resp \<noteq> uuid f (uuids f)
             then (Returns False,
                   g\<lparr>trace := trace g @ [Log ErrorLevel [S ''unexpected response id. sent: '',
                      Q (subscribe_request f), S '' received: '', R resp]]\<rparr>)
             else (case resp_Error resp of
                     Some er \<Rightarrow> (Returns False,
                       g\<lparr>trace := trace g @ [Log ErrorLevel [S ''channel subscribe failed: '',
                          N (Code er), S '' - '', S (Message er)]]\<rparr>)
                   | None \<Rightarrow> (Returns True, g)))"
  by (simp add: try_subscribe_channels_def subscribe_request_def get_subscribe_channels_request_eq
      WriteJSON_def ReadMessage_def effect_def Log_defs Let_def split: sum.splits option.splits)

text \<open>
  C7. The request of \<open>try_subscribe_channels\<close> is the \<open>edgeRpc\<close> request with the
  parameters \<open>edgeId\<close>, the string "0", and \<open>payload\<close>, the \<open>subscribeChannels\<close> request
  whose parameters are \<open>count\<close>, 0, and \<open>channels\<close>, the configured channels in their
  order; each of the two has a uuid of its own. It is the first thing written to the
  socket. The function returns true exactly when the write succeeds and the one message
  read decodes to a response whose id is the id of the outer request and whose error is
  nil; the round trip is then one write and one read. A response with any other id (the
  id of the inner request as well) or with an error gives false.
\<close>

theorem subscribe_round_trip:
  assumes "conn f = Some c"
  shows
    "subscribe_request f =
       RpcReq ''2.0'' ''edgeRpc'' (uuid f (uuids f))
         (ParamMap [(''edgeId'', VString ''0''),
            (''payload'', VReq (RpcReq ''2.0'' ''subscribeChannels'' (uuid f (Suc (uuids f)))
               (ParamMap [(''count'', VInt 0), (''channels'', VStrings (Channels f))])))]) \<and>
     take (Suc (length (trace f))) (trace (snd (try_subscribe_channels f))) =
       trace f @ [Write (subscribe_request f)] \<and>
     (fst (try_subscribe_channels f) = Returns True \<longleftrightarrow>
        (\<exists>ws msg rs resp. wr c = None # ws \<and> rd c = Received msg # rs \<and>
           Unmarshal_RpcResponse msg = Inr resp \<and>
           resp_Id resp = req_Id (subscribe_request f) \<and> resp_Error resp = None)) \<and>
     (\<forall>ws msg rs. fst (try_subscribe_channels f) = Returns True \<and>
          wr c = None # ws \<and> rd c = Received msg # rs \<longrightarrow>
        snd (try_subscribe_channels f) =
          f\<lparr>conn := Some (c\<lparr>wr := ws, rd := rs\<rparr>), uuids := Suc (Suc (uuids f)),
            trace := trace f @ [Write (subscribe_request f), Read]\<rparr>) \<and>
     (\<forall>ws msg rs resp. wr c = None # ws \<and> rd c = Received msg # rs \<and>
        Unmarshal_RpcResponse msg = Inr resp \<and> resp_Id resp \<noteq> req_Id (subscribe_request f) \<longrightarrow>
        fst (try_subscribe_channels f) = Returns False) \<and>
     (\<forall>ws msg rs resp er. wr c = None # ws \<and> rd c = Received msg # rs \<and>
        Unmarshal_RpcResponse msg = Inr resp \<and> resp_Error resp = Some er \<longrightarrow>
        fst (try_subscribe_channels f) = Returns False)"
proof -
  have shape: "subscribe_request f =
       RpcReq ''2.0'' ''edgeRpc'' (uuid f (uuids f))
         (ParamMap [(''edgeId'', VString ''0''),
            (''payload'', VReq (RpcReq ''2.0'' ''subscribeChannels'' (uuid f (Suc (uuids f)))
               (ParamMap [(''count'', VInt 0), (''channels'', VStrings (Channels f))])))])"
    by (simp add: subscribe_request_def get_subscribe_channels_request_eq)
  have both: "take (Suc (length (trace f))) (trace (snd (try_subscribe_channels f))) =
       trace f @ [Write (subscribe_request f)] \<and>
      (fst (try_subscribe_channels f) = Returns True \<longleftrightarrow>
        (\<exists>ws msg rs resp. wr c = None # ws \<and> rd c = Received msg # rs \<and>
           Unmarshal_RpcResponse msg = Inr resp \<and>
           resp_Id resp = req_Id (subscribe_request f) \<and> resp_Error resp = None))"
  proof (cases "wr c" rule: list_cases3)
    case 1
    with assms show ?thesis by (simp add: try_subscribe_blocked_write)
  next
    case (2 e ws)
    with assms show ?thesis by (simp add: try_subscribe_write_error)
  next
    case (3 ws)
    show ?thesis
    proof (cases "rd c" rule: recv_cases3)
      case 1
      with assms 3 show ?thesis by (simp add: try_subscribe_blocked_read)
    next
      case (2 e rs)
      with assms 3 show ?thesis by (simp add: try_subscribe_read_error)
    next
      case (3 msg rs)
      with assms \<open>wr c = None # ws\<close> show ?thesis
        by (auto simp: try_subscribe_received Let_def split: sum.splits option.splits)
    qed
  qed
  show ?thesis
    using assms
    by (intro conjI allI impI both [THEN conjunct1] both [THEN conjunct2] shape)
       (auto simp: try_subscribe_received Let_def split: sum.splits option.splits)
qed

theorem subscribe_round_trip_witness:
  "subscribe_request (logging_in []) = example_subscription \<and>
   try_subscribe_channels (logging_in [Received (accepted ''uuid-'')]) =
     (Returns True,
      (logging_in [])\<lparr>conn := Some \<lparr>wr = [None], rd = []\<rparr>, uuids := 2,
         trace := [Write example_subscription, Read]\<rparr>) \<and>
   fst (try_subscribe_channels (logging_in [Received (accepted ''uuid-i'')])) = Returns False \<and>
   fst (try_subscribe_channels (logging_in [Received (denied ''uuid-'')])) = Returns False"
proof -
  have c: "conn (logging_in rs) = Some \<lparr>wr = [None, None], rd = rs\<rparr>" for rs
    by (simp add: logging_in_def)
  have i: "uuid (logging_in rs) (uuids (logging_in rs)) = ''uuid-''" for rs
    by (simp add: logging_in_def fems0_def uuid0_def)
  have sr: "subscribe_request (logging_in rs) = example_subscription" for rs
    using subscribe_round_trip [OF c [of rs]]
    by (simp add: logging_in_def fems0_def uuid0_def example_subscription_def)
  note r = subscribe_round_trip [OF c [of "[Received (accepted ''uuid-'')]"]]
  from r have t: "fst (try_subscribe_channels (logging_in [Received (accepted ''uuid-'')])) = Returns True"
    by (simp add: Unmarshal_accepted i)
  from r t have "snd (try_subscribe_channels (logging_in [Received (accepted ''uuid-'')])) =
      (logging_in [])\<lparr>conn := Some \<lparr>wr = [None], rd = []\<rparr>, uuids := 2,
         trace := [Write example_subscription, Read]\<rparr>"
    by (simp add: sr) (simp add: logging_in_def fems0_def)
  with t have 1: "try_subscribe_channels (logging_in [Received (accepted ''uuid-'')]) =
     (Returns True,
      (logging_in [])\<lparr>conn := Some \<lparr>wr = [None], rd = []\<rparr>, uuids := 2,
         trace := [Write example_subscription, Read]\<rparr>)"
    by (simp add: prod_eq_iff)
  have 2: "fst (try_subscribe_channels (logging_in [Received (accepted ''uuid-i'')])) = Returns False"
    using subscribe_round_trip [OF c [of "[Received (accepted ''uuid-i'')]"]]
    by (simp add: Unmarshal_accepted i)
  have 3: "fst (try_subscribe_channels (logging_in [Received (denied ''uuid-'')])) = Returns False"
    using subscribe_round_trip [OF c [of "[Received (denied ''uuid-'')]"]]
    by (simp add: Unmarshal_denied i)
  from sr 1 2 3 show ?thesis by simp
qed

subsection \<open>connect\<close>

lemma backoff_only_refl [simp]: "backoff_only f f"
  by (simp add: backoff_only_def exI [of _ 0])

lemma backoff_only_trans:
  assumes "backoff_only f g" and "backoff_only g h"
  shows "backoff_only f h"
proof -
  from assms obtain es n es' n' where
    "trace g = trace f @ es" "sleeps es = replicate n (10 * Second)"
    "trace h = trace g @ es'" "sleeps es' = replicate n' (10 * Second)"
    by (auto simp: backoff_only_def)
  then have "trace h = trace f @ (es @ es') \<and> sleeps (es @ es') = replicate (n + n') (10 * Second)"
    by (simp add: replicate_add)
  with assms show ?thesis unfolding backoff_only_def by metis
qed

lemma same_frame_backoff_only: "same_frame f g \<Longrightarrow> backoff_only f g"
  by (auto simp: same_frame_def backoff_only_def exI [of _ 0])

lemma backoff_only_step: "backoff_only f g \<Longrightarrow> same_frame g h \<Longrightarrow> backoff_only f h"
  by (blast intro: backoff_only_trans same_frame_backoff_only)

lemma replicate_cases: "\<exists>n. [] = replicate n x" "\<exists>n. [x] = replicate n x"
  by (rule exI [of _ 0], simp) (rule exI [of _ "Suc 0"], simp)

lemma backoff_only_before_attempt:
  "before_attempt first f = Inr g \<Longrightarrow> backoff_only f g"
  "before_attempt first f = Inl g \<Longrightarrow> backoff_only f g"
  by (auto simp: before_attempt_def Let_def backoff_only_def cleanup_def Log_defs effect_def
      replicate_cases split: if_splits option.splits)

lemma backoff_only_connect_loop:
  "backoff_only f0 f \<Longrightarrow> backoff_only f0 (snd (connect_loop first f))"
proof (induction first f rule: connect_loop.induct)
  case (1 first f)
  show ?case
  proof (cases "before_attempt first f")
    case (Inl g)
    have "backoff_only f0 g"
      by (rule backoff_only_trans [OF "1.prems" backoff_only_before_attempt(2) [OF Inl]])
    with Inl show ?thesis
      by (subst connect_loop.simps) simp
  next
    case b: (Inr b)
    have fb: "backoff_only f0 b"
      by (rule backoff_only_trans [OF "1.prems" backoff_only_before_attempt(1) [OF b]])
    obtain r g where a: "attempt b = (r, g)" by (cases "attempt b")
    with same_frame_attempt [of b] have "same_frame b g" by simp
    with fb have fg: "backoff_only f0 g" by (rule backoff_only_step)
    show ?thesis
    proof (cases r)
      case (Returns x)
      with "1.IH" [OF b, of x g] a fg b show ?thesis
        by (subst connect_loop.simps) simp
    next
      case Blocks
      with a fg b show ?thesis by (subst connect_loop.simps) simp
    next
      case Panics
      with a fg b show ?thesis by (subst connect_loop.simps) simp
    qed
  qed
qed

lemma before_attempt_Inl: "before_attempt first f = Inl g \<Longrightarrow> is_stopping f"
  by (auto simp: before_attempt_def Let_def cleanup_def Log_defs split: if_splits option.splits)

lemma connect_loop_Returns:
  "connect_loop first f = (Returns x, g) \<Longrightarrow> is_stopping f"
proof (induction first f rule: connect_loop.induct)
  case (1 first f)
  show ?case
  proof (cases "before_attempt first f")
    case (Inl h)
    then show ?thesis by (rule before_attempt_Inl)
  next
    case b: (Inr b)
    from backoff_only_before_attempt(1) [OF b] have sb: "is_stopping b = is_stopping f"
      by (simp add: backoff_only_def)
    from "1.prems" b have "and_then (attempt b) (\<lambda>_ f. connect_loop False f) = (Returns x, g)"
      by (subst (asm) connect_loop.simps) simp
    then obtain y h where a: "attempt b = (Returns y, h)" and c: "connect_loop False h = (Returns x, g)"
      by (blast dest: and_then_Returns)
    from "1.IH" [OF b a c] have "is_stopping h" .
    moreover from same_frame_attempt [of b] a have "is_stopping h = is_stopping b"
      by (simp add: same_frame_def)
    ultimately show ?thesis using sb by simp
  qed
qed

lemma is_stopping_cleanup [simp]: "is_stopping (cleanup f) = is_stopping f"
  by (simp add: cleanup_def Log_defs split: option.splits)

lemma connect_loop_stopping:
  "is_stopping f \<Longrightarrow> connect_loop False f = (Returns (), cleanup f)"
  by (subst connect_loop.simps)
     (simp add: before_attempt_def Let_def cleanup_def Log_defs split: option.splits)

lemma connect_loop_retry:
  "\<not> is_stopping f \<Longrightarrow>
   connect_loop False f =
     connect_loop True
       (effect (Sleep (10 * Second))
          (Log_Warn [S ''Connection failure reconnecting in '', Duration (10 * Second)] (cleanup f)))"
  by (simp add: connect_loop.simps [of False f] connect_loop.simps [of True] before_attempt_def
      Let_def)

lemma attempt_trace_start:
  "\<exists>es. trace (snd (attempt f)) =
     trace f @ Log InfoLevel [S ''Connecting to '', U (Url ''ws'' (URL f))] # Dial (Url ''ws'' (URL f)) # es"
proof -
  let ?u = "Url ''ws'' (URL f)"
  let ?f = "Log_Info [S ''Connecting to '', U ?u] f"
  let ?k = "\<lambda>res f. case res of
       Inl err \<Rightarrow> (Returns (), Log_Error [S ''dial:'', E err] f)
     | Inr ws \<Rightarrow> session ws f"
  obtain r h where d: "Dial_call ?u ?f = (r, h)" by (cases "Dial_call ?u ?f")
  then have h: "trace h = trace f @ [Log InfoLevel [S ''Connecting to '', U ?u], Dial ?u]"
    by (auto simp: Dial_call_def Log_defs effect_def split: list.splits dial.splits)
  have a: "attempt f = and_then (r, h) ?k" by (simp add: attempt_def Let_def d)
  show ?thesis
  proof (cases r)
    case (Returns res)
    have "same_frame h (snd (?k res h))" by (rule same_frame_after_dial [OF same_frame_refl])
    with a Returns h show ?thesis by (auto simp: same_frame_def)
  qed (use a h in simp_all)
qed

lemma connect_trace_start:
  "\<exists>es. trace (snd (connect f)) =
     trace f @ Log InfoLevel [S ''Connecting to '', U (Url ''ws'' (URL f))] # Dial (Url ''ws'' (URL f)) # es"
proof -
  obtain r g where a: "attempt f = (r, g)" by (cases "attempt f")
  from attempt_trace_start [of f] a obtain es where
    g: "trace g = trace f @ Log InfoLevel [S ''Connecting to '', U (Url ''ws'' (URL f))] # Dial (Url ''ws'' (URL f)) # es"
    by auto
  have c: "connect f = and_then (r, g) (\<lambda>_ f. connect_loop False f)"
    by (simp add: connect_def connect_loop.simps [of True] before_attempt_def a)
  show ?thesis
  proof (cases r)
    case (Returns x)
    from backoff_only_connect_loop [OF backoff_only_refl, of g False]
    obtain es' where "trace (snd (connect_loop False g)) = trace g @ es'"
      by (auto simp: backoff_only_def)
    with c Returns g show ?thesis by simp
  qed (use c g in simp_all)
qed

lemma connect_loop_first:
  "connect_loop True f = and_then (attempt f) (\<lambda>_ f. connect_loop False f)"
  by (simp add: connect_loop.simps [of True] before_attempt_def)

text \<open>
  C5. \<open>connect\<close> starts with the first attempt: the first things it does are the
  "Connecting to" entry and the dial, with no sleep before them. An iteration that is not
  the first begins with \<open>cleanup\<close>; when the shutdown flag is set it returns there, and
  otherwise it logs the warning, sleeps ten seconds and goes on exactly as a first
  iteration does. Every sleep of the loop lasts ten seconds (\<open>10 * Second\<close>, in
  nanoseconds), however many there are, and the loop returns only when the shutdown flag
  is set: there is no retry cap.
\<close>

theorem backoff_fixed:
  "(\<exists>es. trace (snd (connect f)) =
      trace f @ Log InfoLevel [S ''Connecting to '', U (Url ''ws'' (URL f))]
              # Dial (Url ''ws'' (URL f)) # es) \<and>
   (is_stopping f \<longrightarrow> connect_loop False f = (Returns (), cleanup f)) \<and>
   (\<not> is_stopping f \<longrightarrow>
      connect_loop False f =
        connect_loop True
          (effect (Sleep (10 * Second))
             (Log_Warn [S ''Connection failure reconnecting in '', Duration (10 * Second)]
                (cleanup f)))) \<and>
   (\<exists>es n. trace (snd (connect_loop first f)) = trace f @ es \<and>
      sleeps es = replicate n (10 * Second)) \<and>
   (fst (connect_loop first f) = Returns () \<longrightarrow> is_stopping f) \<and>
   10 * Second = 10000000000"
proof (intro conjI impI)
  show "\<exists>es n. trace (snd (connect_loop first f)) = trace f @ es \<and>
      sleeps es = replicate n (10 * Second)"
    using backoff_only_connect_loop [OF backoff_only_refl, of f first]
    by (simp add: backoff_only_def)
  show "is_stopping f" if "fst (connect_loop first f) = Returns ()"
    using that connect_loop_Returns [of first f "()" "snd (connect_loop first f)"]
    by (simp add: prod_eq_iff)
qed (simp_all add: connect_trace_start connect_loop_stopping connect_loop_retry Second_def)

theorem backoff_fixed_witness:
  "connect refused =
     (Blocks,
      fems0\<lparr>trace :=
        [Log InfoLevel [S ''Connecting to '', U (Url ''ws'' ''fems.local:8085'')],
         Dial (Url ''ws'' ''fems.local:8085''),
         Log ErrorLevel [S ''dial:'', E ''connection refused''],
         Log WarnLevel [S ''Connection failure reconnecting in '', Duration 10000000000],
         Sleep 10000000000,
         Log InfoLevel [S ''Connecting to '', U (Url ''ws'' ''fems.local:8085'')],
         Dial (Url ''ws'' ''fems.local:8085'')]\<rparr>) \<and>
   connect_loop False (Stop fems_open) =
     (Returns (),
      fems0\<lparr>is_stopping := True,
        trace := [Log InfoLevel [S ''Stop''], Close, Log InfoLevel [S ''connection closed'']]\<rparr>)"
proof -
  let ?g = "fems0\<lparr>trace :=
        [Log InfoLevel [S ''Connecting to '', U (Url ''ws'' ''fems.local:8085'')],
         Dial (Url ''ws'' ''fems.local:8085''),
         Log ErrorLevel [S ''dial:'', E ''connection refused'']]\<rparr>"
  have 1: "connect refused = connect_loop False ?g"
    by (simp add: connect_def connect_loop_first attempt_def Dial_call_def refused_def fems0_def
        Log_defs effect_def Let_def)
  have "\<not> is_stopping ?g" by (simp add: fems0_def)
  with backoff_fixed [of ?g False] have 2: "connect_loop False ?g =
      connect_loop True
          (effect (Sleep (10 * Second))
             (Log_Warn [S ''Connection failure reconnecting in '', Duration (10 * Second)]
                (cleanup ?g)))"
    by blast
  have 3: "connect_loop True
          (effect (Sleep (10 * Second))
             (Log_Warn [S ''Connection failure reconnecting in '', Duration (10 * Second)]
                (cleanup ?g))) =
     (Blocks,
      fems0\<lparr>trace :=
        [Log InfoLevel [S ''Connecting to '', U (Url ''ws'' ''fems.local:8085'')],
         Dial (Url ''ws'' ''fems.local:8085''),
         Log ErrorLevel [S ''dial:'', E ''connection refused''],
         Log WarnLevel [S ''Connection failure reconnecting in '', Duration 10000000000],
         Sleep 10000000000,
         Log InfoLevel [S ''Connecting to '', U (Url ''ws'' ''fems.local:8085'')],
         Dial (Url ''ws'' ''fems.local:8085'')]\<rparr>)"
    by (simp add: connect_loop_first attempt_def Dial_call_def fems0_def cleanup_def
        Log_defs effect_def Second_def Let_def)
  have "is_stopping (Stop fems_open)" by (simp add: Stop_def)
  with backoff_fixed [of "Stop fems_open" False]
  have "connect_loop False (Stop fems_open) = (Returns (), cleanup (Stop fems_open))"
    by blast
  then have 4: "connect_loop False (Stop fems_open) =
     (Returns (),
      fems0\<lparr>is_stopping := True,
        trace := [Log InfoLevel [S ''Stop''], Close, Log InfoLevel [S ''connection closed'']]\<rparr>)"
    by (simp add: Stop_def cleanup_def fems_open_def fems0_def Log_defs effect_def)
  from 1 2 3 4 show ?thesis by simp
qed

subsection \<open>What the failure paths log\<close>

lemma attempt_dial_error:
  "dialer f = DialError e # ds \<Longrightarrow>
   attempt f =
     (Returns (),
      f\<lparr>dialer := ds,
        trace := trace f @
          [Log InfoLevel [S ''Connecting to '', U (Url ''ws'' (URL f))], Dial (Url ''ws'' (URL f)),
           Log ErrorLevel [S ''dial:'', E e]]\<rparr>)"
  by (simp add: attempt_def Dial_call_def Log_defs effect_def Let_def)

text \<open>
  C3, as claimed, fails. A login response that is not valid JSON is one failure and
  leaves two log entries, the parse error and the raw message. A read failure in the
  streaming loop while the shutdown flag is set leaves none.
\<close>

theorem malformed_response_logged_twice:
  "reports (trace (snd (try_login (logging_in [Received garbled_frame])))) =
     [Log InfoLevel [S ''could not parse login response:'', J SyntaxError],
      Log InfoLevel [S ''data was:'', S (raw garbled_frame)]] \<and>
   try_handel_msgs_forever ((streaming [ReadError ''use of closed network connection''])\<lparr>is_stopping := True\<rparr>) =
     (Returns (), (streaming [])\<lparr>is_stopping := True, trace := [Read]\<rparr>) \<and>
   reports [Read] = []"
proof -
  have "Unmarshal_RpcResponse garbled_frame = Inl SyntaxError"
    by (simp add: Unmarshal_RpcResponse_def garbled_frame_def)
  then show ?thesis
    by (simp add: try_login_received [where c = "\<lparr>wr = [None, None], rd = [Received garbled_frame]\<rparr>"]
        loop_read_error [where c = "\<lparr>wr = [], rd = [ReadError ''use of closed network connection'']\<rparr>"]
        logging_in_def streaming_def fems0_def)
qed

text \<open>
  C3, amended. What each failure path appends to the trace. A dial failure, a send
  failure, a receive failure during login or subscription, a response with another id
  and a response with an error each log one entry (besides the trace-level entries of
  \<open>try_login\<close>); a response or a push event that does not decode logs two, the error
  and then the raw message; a receive failure in the streaming loop logs one entry
  unless the shutdown flag is set, and then none; every channel without a value logs
  one warning, in the order in which the \<open>range\<close> loop visits the channels (which the
  runtime chooses: whatever that order, the warnings are one for every such channel),
  and a batch that is empty after the filtering logs one more.
\<close>

theorem failure_paths_logged:
  "(\<forall>e ds. dialer f = DialError e # ds \<longrightarrow>
      trace (snd (attempt f)) = trace f @
        [Log InfoLevel [S ''Connecting to '', U (Url ''ws'' (URL f))], Dial (Url ''ws'' (URL f)),
         Log ErrorLevel [S ''dial:'', E e]]) \<and>
   (\<forall>c e ws. conn f = Some c \<and> wr c = Some e # ws \<longrightarrow>
      trace (snd (try_login f)) = trace f @
        [Log TraceLevel [S ''sending login request''], Write (login_request f),
         Log ErrorLevel [S ''write:'', E e]] \<and>
      trace (snd (try_subscribe_channels f)) = trace f @
        [Write (subscribe_request f),
         Log ErrorLevel [S ''failed to send subscribe channels:'', E e]]) \<and>
   (\<forall>c ws e rs. conn f = Some c \<and> wr c = None # ws \<and> rd c = ReadError e # rs \<longrightarrow>
      trace (snd (try_login f)) = trace f @
        [Log TraceLevel [S ''sending login request''], Write (login_request f), Read,
         Log InfoLevel [S ''read login response:'', E e]] \<and>
      trace (snd (try_subscribe_channels f)) = trace f @
        [Write (subscribe_request f), Read,
         Log InfoLevel [S ''read subscribe response:'', E e]]) \<and>
   (\<forall>c ws msg rs err. conn f = Some c \<and> wr c = None # ws \<and> rd c = Received msg # rs \<and>
        Unmarshal_RpcResponse msg = Inl err \<longrightarrow>
      trace (snd (try_login f)) = trace f @
        [Log TraceLevel [S ''sending login request''], Write (login_request f), Read,
         Log InfoLevel [S ''could not parse login response:'', J err],
         Log InfoLevel [S ''data was:'', S (raw msg)]] \<and>
      trace (snd (try_subscribe_channels f)) = trace f @
        [Write (subscribe_request f), Read,
         Log InfoLevel [S ''could not parse subscribe response:'', J err],
         Log InfoLevel [S ''data was:'', S (raw msg)]]) \<and>
   (\<forall>c ws msg rs resp. conn f = Some c \<and> wr c = None # ws \<and> rd c = Received msg # rs \<and>
        Unmarshal_RpcResponse msg = Inr resp \<and> resp_Id resp \<noteq> uuid f (uuids f) \<longrightarrow>
      trace (snd (try_login f)) = trace f @
        [Log TraceLevel [S ''sending login request''], Write (login_request f), Read,
         Log ErrorLevel [S ''unexpected response id: '', R resp]] \<and>
      trace (snd (try_subscribe_channels f)) = trace f @
        [Write (subscribe_request f), Read,
         Log ErrorLevel [S ''unexpected response id. sent: '', Q (subscribe_request f),
                         S '' received: '', R resp]]) \<and>
   (\<forall>c ws msg rs resp er. conn f = Some c \<and> wr c = None # ws \<and> rd c = Received msg # rs \<and>
        Unmarshal_RpcResponse msg = Inr resp \<and> resp_Id resp = uuid f (uuids f) \<and>
        resp_Error resp = Some er \<longrightarrow>
      trace (snd (try_login f)) = trace f @
        [Log TraceLevel [S ''sending login request''], Write (login_request f), Read,
         Log TraceLevel [S ''got login response''],
         Log ErrorLevel [S ''Login failed: '', N (Code er), S '' - '', S (Message er)]] \<and>
      trace (snd (try_subscribe_channels f)) = trace f @
        [Write (subscribe_request f), Read,
         Log ErrorLevel [S ''channel subscribe failed: '', N (Code er), S '' - '',
                         S (Message er)]]) \<and>
   (\<forall>c e rs. conn f = Some c \<and> rd c = ReadError e # rs \<longrightarrow>
      trace (snd (try_handel_msgs_forever f)) = trace f @
        Read # (if is_stopping f then [] else [Log InfoLevel [S ''read error: '', E e]])) \<and>
   (\<forall>msg err. Unmarshal_DataUpdateEvent msg = Inl err \<longrightarrow>
      trace (handle_message msg f) = trace f @
        [Log InfoLevel [S ''could not parse received data:'', J err],
         Log InfoLevel [S ''data was:'', S (raw msg)]]) \<and>
   (\<forall>msg dataEv. Unmarshal_DataUpdateEvent msg = Inr dataEv \<longrightarrow>
      trace (handle_message msg f) = trace f @
        Log TraceLevel [S ''FEMS RX: '', M (event_data dataEv)]
        # warnings f (event_data dataEv)
        @ [if filter (\<lambda>(key, value). value \<noteq> JNull) (event_data dataEv) = []
           then Log WarnLevel [S ''No measurement data!!! Original message was: '', S (raw msg)]
           else AddFields ''fems'' (filter (\<lambda>(key, value). value \<noteq> JNull) (event_data dataEv))] \<and>
      mset (warnings f (event_data dataEv)) =
        mset (map (no_data_warning \<circ> fst)
               (filter (\<lambda>(key, value). value = JNull) (event_data dataEv))))"
  by (intro conjI allI impI; (elim conjE)?;
      simp add: attempt_dial_error try_login_write_error try_subscribe_write_error
        try_login_read_error try_subscribe_read_error try_login_received try_subscribe_received
        loop_read_error handle_message_undecodable handle_message_decoded mset_warnings Let_def)

theorem failure_paths_logged_witness:
  "trace (snd (attempt refused)) =
     [Log InfoLevel [S ''Connecting to '', U (Url ''ws'' ''fems.local:8085'')],
      Dial (Url ''ws'' ''fems.local:8085''),
      Log ErrorLevel [S ''dial:'', E ''connection refused'']] \<and>
   trace (snd (try_login (logging_in [Received garbled_frame]))) =
     [Log TraceLevel [S ''sending login request''],
      Write (login_request (logging_in [Received garbled_frame])), Read,
      Log InfoLevel [S ''could not parse login response:'', J SyntaxError],
      Log InfoLevel [S ''data was:'', S (raw garbled_frame)]] \<and>
   trace (snd (try_subscribe_channels (logging_in [Received (denied ''uuid-'')]))) =
     [Write (subscribe_request (logging_in [Received (denied ''uuid-'')])), Read,
      Log ErrorLevel [S ''channel subscribe failed: '', N 1, S '' - '', S ''bad password'']] \<and>
   trace (snd (try_handel_msgs_forever
      ((streaming [ReadError ''closed''])\<lparr>is_stopping := True\<rparr>))) = [Read] \<and>
   trace (snd (try_handel_msgs_forever (streaming [ReadError ''closed'']))) =
     [Read, Log InfoLevel [S ''read error: '', E ''closed'']] \<and>
   trace (handle_message null_frame fems0) =
     [Log TraceLevel [S ''FEMS RX: '', M [(''ch2'', JNull), (''ch3'', JNull)]],
      no_data_warning ''ch3'', no_data_warning ''ch2'',
      Log WarnLevel [S ''No measurement data!!! Original message was: '', S (raw null_frame)]]"
proof -
  have 1: "trace (snd (attempt refused)) =
     [Log InfoLevel [S ''Connecting to '', U (Url ''ws'' ''fems.local:8085'')],
      Dial (Url ''ws'' ''fems.local:8085''),
      Log ErrorLevel [S ''dial:'', E ''connection refused'']]"
    using failure_paths_logged [of refused] by (simp add: refused_def fems0_def)
  have g: "Unmarshal_RpcResponse garbled_frame = Inl SyntaxError"
    by (simp add: Unmarshal_RpcResponse_def garbled_frame_def)
  have c: "conn (logging_in rs) = Some \<lparr>wr = [None, None], rd = rs\<rparr>"
    and t: "trace (logging_in rs) = []"
    and u: "uuid (logging_in rs) (uuids (logging_in rs)) = ''uuid-''" for rs
    by (simp_all add: logging_in_def fems0_def uuid0_def)
  have 2: "trace (snd (try_login (logging_in [Received garbled_frame]))) =
     [Log TraceLevel [S ''sending login request''],
      Write (login_request (logging_in [Received garbled_frame])), Read,
      Log InfoLevel [S ''could not parse login response:'', J SyntaxError],
      Log InfoLevel [S ''data was:'', S (raw garbled_frame)]]"
    using failure_paths_logged [of "logging_in [Received garbled_frame]"] g
    by (simp add: c t)
  have 3: "trace (snd (try_subscribe_channels (logging_in [Received (denied ''uuid-'')]))) =
     [Write (subscribe_request (logging_in [Received (denied ''uuid-'')])), Read,
      Log ErrorLevel [S ''channel subscribe failed: '', N 1, S '' - '', S ''bad password'']]"
    using failure_paths_logged [of "logging_in [Received (denied ''uuid-'')]"]
    by (simp add: c t u Unmarshal_denied)
  have 4: "trace (snd (try_handel_msgs_forever
      ((streaming [ReadError ''closed''])\<lparr>is_stopping := True\<rparr>))) = [Read]"
    using failure_paths_logged [of "(streaming [ReadError ''closed''])\<lparr>is_stopping := True\<rparr>"]
    by (simp add: streaming_def fems0_def)
  have 5: "trace (snd (try_handel_msgs_forever (streaming [ReadError ''closed'']))) =
     [Read, Log InfoLevel [S ''read error: '', E ''closed'']]"
    using failure_paths_logged [of "streaming [ReadError ''closed'']"]
    by (simp add: streaming_def fems0_def)
  have 6: "trace (handle_message null_frame fems0) =
     [Log TraceLevel [S ''FEMS RX: '', M [(''ch2'', JNull), (''ch3'', JNull)]],
      no_data_warning ''ch3'', no_data_warning ''ch2'',
      Log WarnLevel [S ''No measurement data!!! Original message was: '', S (raw null_frame)]]"
    using failure_paths_logged [of fems0]
    by (simp add: Unmarshal_null_frame warnings_def visit_def event_data_def null_event_def
        fems0_def Let_def)
  from 1 2 3 4 5 6 show ?thesis by simp
qed


end
